theory Spec2Isabelle
  imports
    Complex_Main
    "HOL-Library.Multiset"
    "HOL-Library.Product_Lexorder"
    "HOL-Library.List_Lexorder"
    "HOL-Library.Char_ord"
begin

section \<open>Data model of the notebook 01\_Framework\<close>

text \<open>
  The notebook keeps three pandas frames, \<open>prices\<close>, \<open>features\<close> and \<open>outcomes\<close>, each
  indexed by the pair (date, symbol). A date is the calendar day of a pandas timestamp,
  written (year, month, day); pairs and strings are ordered lexicographically, which is
  the order \<open>sort_index\<close> uses on the two index levels.
\<close>

type_synonym date = "int \<times> int \<times> int"
type_synonym symbol = string
type_synonym key = "date \<times> symbol"

text \<open>
  A cell of a float column, of \<open>prices\<close> as of the derived frames. \<open>NaN\<close> is the missing
  value that \<open>dropna\<close> looks for; the two infinities are what numpy returns for a non-zero
  number divided by zero and are not missing values. Finite cells are idealised as real
  numbers: rounding and the sign of zero are not modelled, and none of the properties
  below speaks about them. Which cells are missing does not depend on rounding: on
  numbers, a difference or a quotient is \<open>NaN\<close> only as zero divided by zero.
\<close>

datatype float64 = NaN | PInf | NInf | Fin real

fun fsub :: "float64 \<Rightarrow> float64 \<Rightarrow> float64" where
  "fsub NaN y = NaN"
| "fsub x NaN = NaN"
| "fsub PInf PInf = NaN"
| "fsub NInf NInf = NaN"
| "fsub PInf y = PInf"
| "fsub NInf y = NInf"
| "fsub (Fin a) PInf = NInf"
| "fsub (Fin a) NInf = PInf"
| "fsub (Fin a) (Fin b) = Fin (a - b)"

fun fdiv :: "float64 \<Rightarrow> float64 \<Rightarrow> float64" where
  "fdiv NaN y = NaN"
| "fdiv x NaN = NaN"
| "fdiv (Fin a) (Fin b) =
     (if b = 0 then (if a = 0 then NaN else if 0 < a then PInf else NInf)
      else Fin (a / b))"
| "fdiv (Fin a) y = Fin 0"
| "fdiv PInf (Fin b) = (if b < 0 then NInf else PInf)"
| "fdiv NInf (Fin b) = (if b < 0 then PInf else NInf)"
| "fdiv x y = NaN"

datatype error = ReaderError | NameError | AttributeError | KeyError | ValueError

text \<open>
  A row of the frame that \<open>web.DataReader(symbol, data_source, begin_date, end_date)\<close>
  delivers, after the selection of the five adjusted columns: the \<open>Date\<close> index and one
  float cell per adjusted column, missing where the source has no quote. Columns the
  source delivers besides these are the \<open>more\<close> part of the record; the selection drops
  them.
\<close>

record quandl_row =
  Date :: date
  AdjOpen :: float64
  AdjHigh :: float64
  AdjLow :: float64
  AdjClose :: float64
  AdjVolume :: float64

text \<open>
  A row of \<open>prices\<close>: the index levels \<open>date\<close> and \<open>symbol\<close> and the columns
  \<open>open\<close>, \<open>high\<close>, \<open>low\<close>, \<open>close\<close>, \<open>volume\<close> (\<open>open\<close> is written \<open>openp\<close>).
  Every price and volume cell is a float cell: a number, zero included, an infinity, or
  the missing value.
\<close>

record price_row =
  date :: date
  symbol :: symbol
  openp :: float64
  high :: float64
  low :: float64
  close :: float64
  volume :: float64

definition key :: "price_row \<Rightarrow> key" where
  "key r = (date r, symbol r)"

text \<open>
  \<open>pd.DataFrame()\<close> has no (date, symbol) index; a frame that went through
  \<open>set_index(['date','symbol'])\<close> has one.
\<close>

datatype prices_frame = Unindexed | Indexed "price_row list"

text \<open>
  A derived frame (\<open>features\<close>, \<open>outcomes\<close>, \<open>Xy\<close>): the column names in order, and per
  row the index key and one cell per column. A series is one named column. The two
  integer columns of \<open>features\<close> hold whole numbers, which are never missing.
\<close>

record frame =
  columns :: "string list"
  rows :: "(key \<times> float64 list) list"

record series =
  name :: string
  items :: "(key \<times> float64) list"

section \<open>get\_symbols\<close>

definition adjusted :: "symbol \<Rightarrow> 'a quandl_row_scheme \<Rightarrow> price_row" where
  "adjusted s q =
     \<lparr>date = Date q, symbol = s, openp = AdjOpen q, high = AdjHigh q,
      low = AdjLow q, close = AdjClose q, volume = AdjVolume q\<rparr>"

fun concat_frames :: "prices_frame \<Rightarrow> price_row list \<Rightarrow> prices_frame" where
  "concat_frames Unindexed df = Indexed df"
| "concat_frames (Indexed out) df = Indexed (out @ df)"

fun sort_index :: "prices_frame \<Rightarrow> prices_frame" where
  "sort_index Unindexed = Unindexed"
| "sort_index (Indexed out) = Indexed (sort_key key out)"

text \<open>
  The \<open>for symbol in symbols\<close> loop, with \<open>out\<close> as accumulator. The reader is the
  external service; when it raises (or its frame lacks an adjusted column) the
  exception leaves \<open>get_symbols\<close>.
\<close>

fun get_symbols_loop ::
  "(symbol \<Rightarrow> string \<Rightarrow> string option \<Rightarrow> string option \<Rightarrow> error + 'a quandl_row_scheme list)
   \<Rightarrow> string \<Rightarrow> string option \<Rightarrow> string option
   \<Rightarrow> prices_frame \<Rightarrow> symbol list \<Rightarrow> error + prices_frame" where
  "get_symbols_loop reader data_source begin_date end_date out [] = Inr out"
| "get_symbols_loop reader data_source begin_date end_date out (s # symbols) =
     (case reader s data_source begin_date end_date of
        Inl e \<Rightarrow> Inl e
      | Inr df \<Rightarrow>
          get_symbols_loop reader data_source begin_date end_date
            (concat_frames out (map (adjusted s) df)) symbols)"

definition get_symbols ::
  "(symbol \<Rightarrow> string \<Rightarrow> string option \<Rightarrow> string option \<Rightarrow> error + 'a quandl_row_scheme list)
   \<Rightarrow> symbol list \<Rightarrow> string \<Rightarrow> string option \<Rightarrow> string option
   \<Rightarrow> error + prices_frame" where
  "get_symbols reader symbols data_source begin_date end_date =
     (case get_symbols_loop reader data_source begin_date end_date Unindexed symbols of
        Inl e \<Rightarrow> Inl e
      | Inr out \<Rightarrow> Inr (sort_index out))"

text \<open>The rows one symbol contributes: what the reader delivers for it, renamed and tagged.\<close>

definition fetched ::
  "(symbol \<Rightarrow> string \<Rightarrow> string option \<Rightarrow> string option \<Rightarrow> error + 'a quandl_row_scheme list)
   \<Rightarrow> string \<Rightarrow> string option \<Rightarrow> string option \<Rightarrow> symbol \<Rightarrow> price_row list" where
  "fetched reader data_source begin_date end_date s =
     (case reader s data_source begin_date end_date of
        Inl e \<Rightarrow> []
      | Inr df \<Rightarrow> map (adjusted s) df)"

section \<open>Series operations of pandas\<close>

text \<open>
  \<open>shift(k)\<close> moves every value \<open>k\<close> places down (up for negative \<open>k\<close>) and fills
  with \<open>NaN\<close>; \<open>diff(k)\<close> subtracts the shifted series; \<open>pct_change(k)\<close> pads missing
  values with the last valid one (its default \<open>fill_method\<close>), divides by the shifted
  series and subtracts one.
\<close>

definition shift :: "int \<Rightarrow> float64 list \<Rightarrow> float64 list" where
  "shift k xs =
     map (\<lambda>i. let j = int i - k
              in if 0 \<le> j \<and> j < int (length xs) then xs ! nat j else NaN)
       [0..<length xs]"

definition diff :: "int \<Rightarrow> float64 list \<Rightarrow> float64 list" where
  "diff k xs = map2 fsub xs (shift k xs)"

fun pad_from :: "float64 \<Rightarrow> float64 list \<Rightarrow> float64 list" where
  "pad_from valid [] = []"
| "pad_from valid (x # xs) =
     (if x = NaN then valid # pad_from valid xs else x # pad_from x xs)"

definition pct_change :: "int \<Rightarrow> float64 list \<Rightarrow> float64 list" where
  "pct_change k xs =
     (let filled = pad_from NaN xs
      in map (\<lambda>q. fsub q (Fin 1)) (map2 fdiv filled (shift k filled)))"

text \<open>
  \<open>prices.groupby(level='symbol').col.op\<close>: the rows of one symbol, in table order, form
  a group; \<open>op\<close> runs on the group's column, and each result goes back to the row it
  came from, so the result has the index of \<open>prices\<close>.
\<close>

definition grp :: "symbol \<Rightarrow> price_row list \<Rightarrow> price_row list" where
  "grp s prices = filter (\<lambda>r. symbol r = s) prices"

definition pos :: "price_row list \<Rightarrow> nat \<Rightarrow> nat" where
  "pos prices i = length (grp (symbol (prices ! i)) (take i prices))"

definition groupby_symbol ::
  "(price_row \<Rightarrow> float64) \<Rightarrow> (float64 list \<Rightarrow> float64 list) \<Rightarrow> price_row list \<Rightarrow> float64 list" where
  "groupby_symbol col op prices =
     map (\<lambda>i. op (map col (grp (symbol (prices ! i)) prices)) ! pos prices i)
       [0..<length prices]"

text \<open>
  \<open>DatetimeIndex.weekday\<close> (Monday is 0) and \<open>.day\<close>. The weekday follows the
  table-driven formula of pandas' calendar code, for a month from 1 to 12.
\<close>

definition weekday :: "date \<Rightarrow> int" where
  "weekday d =
     (case d of (y, m, dd) \<Rightarrow>
        let t = [0, 3, 2, 5, 0, 3, 5, 1, 4, 6, 2, 4 :: int];
            y' = (if m < 3 then y - 1 else y);
            w = (y' + y' div 4 - y' div 100 + y' div 400 + t ! nat (m - 1) + dd) mod 7
        in (w + 6) mod 7)"

definition day :: "date \<Rightarrow> int" where
  "day d = (case d of (y, m, dd) \<Rightarrow> dd)"

section \<open>Frame operations of pandas\<close>

definition index_of :: "string \<Rightarrow> string list \<Rightarrow> nat" where
  "index_of c cs = length (takeWhile (\<lambda>x. x \<noteq> c) cs)"

definition new_frame :: "key list \<Rightarrow> frame" where
  "new_frame idx = \<lparr>columns = [], rows = map (\<lambda>k. (k, [])) idx\<rparr>"

text \<open>
  \<open>F[c] = vals\<close> for a series \<open>vals\<close> that carries the index of \<open>F\<close>: a new column is
  appended, an existing one is overwritten.
\<close>

definition setitem :: "string \<Rightarrow> float64 list \<Rightarrow> frame \<Rightarrow> frame" where
  "setitem c vals F =
     (if c \<in> set (columns F)
      then F\<lparr>rows := map2 (\<lambda>(k, vs) v. (k, vs[index_of c (columns F) := v])) (rows F) vals\<rparr>
      else \<lparr>columns = columns F @ [c],
            rows = map2 (\<lambda>(k, vs) v. (k, vs @ [v])) (rows F) vals\<rparr>)"

definition dropna :: "frame \<Rightarrow> frame" where
  "dropna F = F\<lparr>rows := filter (\<lambda>(k, vs). NaN \<notin> set vs) (rows F)\<rparr>"

text \<open>
  \<open>F.c\<close> and \<open>F[c]\<close> for one column name, and \<open>F[cs]\<close> for a list of names. They
  differ in the exception for a name that is not a column.
\<close>

definition column :: "string \<Rightarrow> frame \<Rightarrow> series" where
  "column c F =
     \<lparr>name = c, items = map (\<lambda>(k, vs). (k, vs ! index_of c (columns F))) (rows F)\<rparr>"

definition getcol :: "string \<Rightarrow> frame \<Rightarrow> error + series" where
  "getcol c F = (if c \<in> set (columns F) then Inr (column c F) else Inl AttributeError)"

definition getitem :: "string \<Rightarrow> frame \<Rightarrow> error + series" where
  "getitem c F = (if c \<in> set (columns F) then Inr (column c F) else Inl KeyError)"

definition getcols :: "string list \<Rightarrow> frame \<Rightarrow> error + frame" where
  "getcols cs F =
     (if set cs \<subseteq> set (columns F)
      then Inr \<lparr>columns = cs,
                rows = map (\<lambda>(k, vs). (k, map (\<lambda>c. vs ! index_of c (columns F)) cs)) (rows F)\<rparr>
      else Inl KeyError)"

text \<open>
  \<open>X.join(y)\<close>: a left join on the index. Each row of \<open>X\<close>, in order, is paired with
  every item of \<open>y\<close> under the same key, or with \<open>NaN\<close> when there is none. pandas
  refuses the join when \<open>y\<close>'s name is already a column of \<open>X\<close>.
\<close>

definition matches :: "key \<Rightarrow> series \<Rightarrow> float64 list" where
  "matches k y = map snd (filter (\<lambda>(k', v). k' = k) (items y))"

definition join :: "frame \<Rightarrow> series \<Rightarrow> error + frame" where
  "join X y =
     (if name y \<in> set (columns X) then Inl ValueError
      else Inr \<lparr>columns = columns X @ [name y],
                rows = concat (map (\<lambda>(k, vs).
                         case matches k y of
                           [] \<Rightarrow> [(k, vs @ [NaN])]
                         | ms \<Rightarrow> map (\<lambda>v. (k, vs @ [v])) ms) (rows X))\<rparr>)"

section \<open>The cells that build features, outcomes and the training pair\<close>

text \<open>
  The features cell: an empty frame on the index of \<open>prices\<close>, five column assignments
  (\<open>features_all\<close>), then \<open>dropna(inplace=True)\<close>.
\<close>

definition volume_change_ratio :: "price_row list \<Rightarrow> float64 list" where
  "volume_change_ratio prices =
     map2 fdiv (groupby_symbol volume (diff 1) prices) (groupby_symbol volume (shift 1) prices)"

definition momentum_5_day :: "price_row list \<Rightarrow> float64 list" where
  "momentum_5_day prices = groupby_symbol close (pct_change 5) prices"

definition intraday_chg :: "price_row list \<Rightarrow> float64 list" where
  "intraday_chg prices =
     map2 fdiv
       (map2 fsub (groupby_symbol close (shift 0) prices) (groupby_symbol openp (shift 0) prices))
       (groupby_symbol openp (shift 0) prices)"

definition day_of_week :: "date \<Rightarrow> float64" where
  "day_of_week d = Fin (of_int (weekday d))"

definition day_of_month :: "date \<Rightarrow> float64" where
  "day_of_month d = Fin (of_int (day d))"

definition features_all :: "price_row list \<Rightarrow> frame" where
  "features_all prices =
     (let f0 = new_frame (map key prices);
          f1 = setitem ''volume_change_ratio'' (volume_change_ratio prices) f0;
          f2 = setitem ''momentum_5_day'' (momentum_5_day prices) f1;
          f3 = setitem ''intraday_chg'' (intraday_chg prices) f2;
          f4 = setitem ''day_of_week'' (map (\<lambda>x. day_of_week (fst (fst x))) (rows f3)) f3;
          f5 = setitem ''day_of_month'' (map (\<lambda>x. day_of_month (fst (fst x))) (rows f4)) f4
      in f5)"

definition features :: "price_row list \<Rightarrow> frame" where
  "features prices = dropna (features_all prices)"

text \<open>
  The outcomes cell: \<open>open_1\<close> is the next open over the row's close, minus one;
  \<open>close_1\<close> and \<open>close_5\<close> are \<open>pct_change\<close> with a negative period.
\<close>

definition open_1 :: "price_row list \<Rightarrow> float64 list" where
  "open_1 prices =
     map (\<lambda>q. fsub q (Fin 1))
       (map2 fdiv (groupby_symbol openp (shift (- 1)) prices)
                  (groupby_symbol close (shift 0) prices))"

definition close_1 :: "price_row list \<Rightarrow> float64 list" where
  "close_1 prices = groupby_symbol close (pct_change (- 1)) prices"

definition close_5 :: "price_row list \<Rightarrow> float64 list" where
  "close_5 prices = groupby_symbol close (pct_change (- 5)) prices"

definition outcomes :: "price_row list \<Rightarrow> frame" where
  "outcomes prices =
     (let o0 = new_frame (map key prices);
          o1 = setitem ''open_1'' (open_1 prices) o0;
          o2 = setitem ''close_1'' (close_1 prices) o1;
          o3 = setitem ''close_5'' (close_5 prices) o2
      in o3)"

text \<open>
  \<open>y = outcomes.c; X = features; Xy = X.join(y).dropna(); y = Xy[y.name]; X = Xy[X.columns]\<close>
\<close>

definition training_pair :: "frame \<Rightarrow> frame \<Rightarrow> string \<Rightarrow> error + frame \<times> series" where
  "training_pair feats outs c =
     (case getcol c outs of
        Inl e \<Rightarrow> Inl e
      | Inr y \<Rightarrow>
         (case join feats y of
            Inl e \<Rightarrow> Inl e
          | Inr J \<Rightarrow>
             (let Xy = dropna J in
              case getitem (name y) Xy of
                Inl e \<Rightarrow> Inl e
              | Inr y' \<Rightarrow>
                 (case getcols (columns feats) Xy of
                    Inl e \<Rightarrow> Inl e
                  | Inr X' \<Rightarrow> Inr (X', y')))))"


section \<open>Row-wise reading of the derived frames\<close>

text \<open>
  The value of column \<open>col\<close> at position \<open>j\<close> of a group, \<open>NaN\<close> outside the group:
  what a shifted group column holds.
\<close>

definition cell_at :: "(price_row \<Rightarrow> float64) \<Rightarrow> price_row list \<Rightarrow> int \<Rightarrow> float64" where
  "cell_at col g j = (if 0 \<le> j \<and> j < int (length g) then col (g ! nat j) else NaN)"

text \<open>
  The close at position \<open>j\<close> of a group after the padding of \<open>pct_change\<close>, which
  replaces a missing close by the last one present before it in the group. \<open>valid\<close> is
  the close that the padding holds when it enters the group, \<open>NaN\<close> at the start of a
  group; \<open>carried\<close> is the close it holds when it leaves a column.
\<close>

definition pad_at :: "float64 \<Rightarrow> price_row list \<Rightarrow> int \<Rightarrow> float64" where
  "pad_at valid g j =
     (if 0 \<le> j \<and> j < int (length g) then pad_from valid (map close g) ! nat j else NaN)"

fun carried :: "float64 \<Rightarrow> float64 list \<Rightarrow> float64" where
  "carried valid [] = valid"
| "carried valid (x # xs) = carried (if x = NaN then valid else x) xs"

text \<open>The five feature cells and the three outcome cells of the \<open>j\<close>-th row of a group.\<close>

definition feature_cells :: "price_row list \<Rightarrow> nat \<Rightarrow> float64 list" where
  "feature_cells g j =
     [fdiv (fsub (cell_at volume g (int j)) (cell_at volume g (int j - 1)))
           (cell_at volume g (int j - 1)),
      fsub (fdiv (pad_at NaN g (int j)) (pad_at NaN g (int j - 5))) (Fin 1),
      fdiv (fsub (cell_at close g (int j)) (cell_at openp g (int j))) (cell_at openp g (int j)),
      Fin (of_int (weekday (date (g ! j)))),
      Fin (of_int (day (date (g ! j))))]"

definition outcome_cells_from :: "float64 \<Rightarrow> price_row list \<Rightarrow> nat \<Rightarrow> float64 list" where
  "outcome_cells_from valid g j =
     [fsub (fdiv (cell_at openp g (int j + 1)) (cell_at close g (int j))) (Fin 1),
      fsub (fdiv (pad_at valid g (int j)) (pad_at valid g (int j + 1))) (Fin 1),
      fsub (fdiv (pad_at valid g (int j)) (pad_at valid g (int j + 5))) (Fin 1)]"

definition outcome_cells :: "price_row list \<Rightarrow> nat \<Rightarrow> float64 list" where
  "outcome_cells g j = outcome_cells_from NaN g j"

definition group_rows ::
  "(price_row list \<Rightarrow> nat \<Rightarrow> float64 list) \<Rightarrow> price_row list \<Rightarrow> (key \<times> float64 list) list" where
  "group_rows cells g = map (\<lambda>j. (key (g ! j), cells g j)) [0..<length g]"

definition no_missing :: "key \<times> float64 list \<Rightarrow> bool" where
  "no_missing r = (NaN \<notin> set (snd r))"

text \<open>The rows of a frame under one symbol, and under one (date, symbol) key.\<close>

definition rows_of_symbol :: "symbol \<Rightarrow> frame \<Rightarrow> (key \<times> float64 list) list" where
  "rows_of_symbol s F = filter (\<lambda>x. snd (fst x) = s) (rows F)"

definition rows_at :: "key \<Rightarrow> frame \<Rightarrow> (key \<times> float64 list) list" where
  "rows_at k F = filter (\<lambda>x. fst x = k) (rows F)"

text \<open>
  The price rows of symbol \<open>s\<close> dated at or before \<open>d\<close>, those dated at or after \<open>d\<close>,
  those dated after \<open>d\<close> and those dated before \<open>d\<close>.
\<close>

definition past :: "symbol \<Rightarrow> date \<Rightarrow> price_row list \<Rightarrow> price_row list" where
  "past s d prices = filter (\<lambda>r. symbol r = s \<and> date r \<le> d) prices"

definition from_date :: "symbol \<Rightarrow> date \<Rightarrow> price_row list \<Rightarrow> price_row list" where
  "from_date s d prices = filter (\<lambda>r. symbol r = s \<and> d \<le> date r) prices"


definition after_date :: "symbol \<Rightarrow> date \<Rightarrow> price_row list \<Rightarrow> price_row list" where
  "after_date s d prices = filter (\<lambda>r. symbol r = s \<and> d < date r) prices"





section \<open>Sample tables\<close>

text \<open>One price row of December 2016: day, symbol, open, close, volume.\<close>

definition bar :: "int \<Rightarrow> symbol \<Rightarrow> real \<Rightarrow> real \<Rightarrow> real \<Rightarrow> price_row" where
  "bar dd s o_px c_px v =
     \<lparr>date = (2016, 12, dd), symbol = s, openp = Fin o_px, high = Fin (max o_px c_px),
      low = Fin (min o_px c_px), close = Fin c_px, volume = Fin v\<rparr>"

text \<open>Seven sessions of two symbols, in index order.\<close>

definition week_prices :: "price_row list" where
  "week_prices =
     [bar 1 ''AAPL'' 100 101 500, bar 1 ''CSCO'' 30 31 900,
      bar 2 ''AAPL'' 101 103 600, bar 2 ''CSCO'' 31 30 800,
      bar 5 ''AAPL'' 103 102 550, bar 5 ''CSCO'' 30 32 700,
      bar 6 ''AAPL'' 102 104 650, bar 6 ''CSCO'' 32 33 750,
      bar 7 ''AAPL'' 104 105 700, bar 7 ''CSCO'' 33 32 850,
      bar 8 ''AAPL'' 105 104 500, bar 8 ''CSCO'' 32 34 950,
      bar 9 ''AAPL'' 104 108 800, bar 9 ''CSCO'' 34 35 600]"

text \<open>The same sessions with every CSCO row changed and the AAPL rows kept.\<close>

definition week_prices_other_csco :: "price_row list" where
  "week_prices_other_csco =
     [bar 1 ''AAPL'' 100 101 500, bar 1 ''CSCO'' 40 41 100,
      bar 2 ''AAPL'' 101 103 600, bar 2 ''CSCO'' 41 40 200,
      bar 5 ''AAPL'' 103 102 550,
      bar 6 ''AAPL'' 102 104 650, bar 6 ''CSCO'' 42 43 300,
      bar 7 ''AAPL'' 104 105 700,
      bar 8 ''AAPL'' 105 104 500, bar 8 ''CSCO'' 42 44 400,
      bar 9 ''AAPL'' 104 108 800]"

text \<open>Two sessions of one symbol, and the same with the first close changed.\<close>

definition two_days :: "price_row list" where
  "two_days = [bar 1 ''AAPL'' 10 10 100, bar 2 ''AAPL'' 11 12 100]"



text \<open>
  Three sessions of one symbol without a close on 2 December; the same with another
  first row that has the same close; and the same with another first close.
\<close>

definition no_close :: "int \<Rightarrow> symbol \<Rightarrow> real \<Rightarrow> real \<Rightarrow> price_row" where
  "no_close dd s o_px v = (bar dd s o_px o_px v)\<lparr>close := NaN\<rparr>"

definition gap_prices :: "price_row list" where
  "gap_prices =
     [bar 1 ''AAPL'' 100 101 500, no_close 2 ''AAPL'' 101 600, bar 5 ''AAPL'' 103 102 550]"


definition gap_prices_other_close :: "price_row list" where
  "gap_prices_other_close =
     [bar 1 ''AAPL'' 100 51 500, no_close 2 ''AAPL'' 101 600, bar 5 ''AAPL'' 103 102 550]"


text \<open>
  A ratio \<open>x / y\<close> of two float cells is undefined, that is \<open>NaN\<close>, when a cell of it is
  missing, when both are zero and when both are infinite. A cell is a number when it is
  neither missing nor infinite.
\<close>

definition undefined_ratio :: "float64 \<Rightarrow> float64 \<Rightarrow> bool" where
  "undefined_ratio x y \<longleftrightarrow>
     x = NaN \<or> y = NaN \<or> (x = Fin 0 \<and> y = Fin 0) \<or>
     ((x = PInf \<or> x = NInf) \<and> (y = PInf \<or> y = NInf))"

fun is_num :: "float64 \<Rightarrow> bool" where
  "is_num (Fin a) = True"
| "is_num x = False"

text \<open>
  Whether the \<open>i\<close>-th price row gives a features row without a missing cell: the symbol
  has five earlier rows, and none of the three ratios is undefined: the change of the
  volume over the previous volume, the padded close over the padded close five rows
  earlier, and the close less the open over the open.
\<close>

definition survives :: "price_row list \<Rightarrow> nat \<Rightarrow> bool" where
  "survives prices i =
     (let g = grp (symbol (prices ! i)) prices; j = pos prices i;
          padded = pad_from NaN (map close g)
      in 5 \<le> j \<and>
         \<not> undefined_ratio (fsub (volume (g ! j)) (volume (g ! (j - 1)))) (volume (g ! (j - 1))) \<and>
         \<not> undefined_ratio (padded ! j) (padded ! (j - 5)) \<and>
         \<not> undefined_ratio (fsub (close (g ! j)) (openp (g ! j))) (openp (g ! j)))"

text \<open>Six sessions of one symbol with no trade on the last two, and two sessions quoted at zero.\<close>

definition thin_prices :: "price_row list" where
  "thin_prices =
     [bar 1 ''AAPL'' 100 101 500, bar 2 ''AAPL'' 101 103 600, bar 5 ''AAPL'' 103 102 550,
      bar 6 ''AAPL'' 102 104 650, bar 7 ''AAPL'' 104 104 0, bar 8 ''AAPL'' 104 104 0]"

definition zero_quotes :: "price_row list" where
  "zero_quotes = [bar 1 ''AAPL'' 5 0 100, bar 2 ''AAPL'' 0 0 100]"


section \<open>The cells on the frame that get\_symbols returns\<close>

text \<open>
  \<open>prices.groupby(level='symbol')\<close> raises on a frame without that index level, which
  is what \<open>get_symbols\<close> returns for an empty symbol list.
\<close>

fun features_cell :: "prices_frame \<Rightarrow> error + frame" where
  "features_cell Unindexed = Inl ValueError"
| "features_cell (Indexed prices) = Inr (features prices)"

fun outcomes_cell :: "prices_frame \<Rightarrow> error + frame" where
  "outcomes_cell Unindexed = Inl ValueError"
| "outcomes_cell (Indexed prices) = Inr (outcomes prices)"

text \<open>The features cell, the outcomes cell and the training-pair cell for outcome \<open>c\<close>.\<close>

definition prepare :: "prices_frame \<Rightarrow> string \<Rightarrow> error + frame \<times> series" where
  "prepare prices c =
     (case features_cell prices of
        Inl e \<Rightarrow> Inl e
      | Inr feats \<Rightarrow>
         (case outcomes_cell prices of
            Inl e \<Rightarrow> Inl e
          | Inr outs \<Rightarrow> training_pair feats outs c))"

text \<open>One session of one symbol, five sessions, and seven sessions.\<close>

definition one_day :: "price_row list" where
  "one_day = [bar 1 ''AAPL'' 100 101 500]"

definition five_days :: "price_row list" where
  "five_days =
     [bar 1 ''AAPL'' 100 101 500, bar 2 ''AAPL'' 101 103 600, bar 5 ''AAPL'' 103 102 550,
      bar 6 ''AAPL'' 102 104 650, bar 7 ''AAPL'' 104 105 700]"

definition seven_days :: "price_row list" where
  "seven_days = five_days @ [bar 8 ''AAPL'' 105 104 500, bar 9 ''AAPL'' 104 108 800]"

text \<open>
  \<open>model.fit(X, y)\<close> of the scikit-learn regressors begins by validating its input
  (\<open>check_X_y\<close>): it raises \<open>ValueError\<close> for a missing or infinite cell of \<open>X\<close>, for
  an \<open>X\<close> without rows, for a missing or infinite cell of \<open>y\<close>, and for \<open>X\<close> and \<open>y\<close>
  of different lengths. The estimation that follows the validation is external and not
  described here. \<open>fit_cell\<close> is the training-pair cell followed by the validation of
  the fit cell.
\<close>

definition check_X_y :: "frame \<Rightarrow> series \<Rightarrow> error + unit" where
  "check_X_y X y =
     (if list_ex (\<lambda>r. list_ex (\<lambda>v. \<not> is_num v) (snd r)) (rows X) then Inl ValueError
      else if rows X = [] then Inl ValueError
      else if list_ex (\<lambda>v. \<not> is_num (snd v)) (items y) then Inl ValueError
      else if length (rows X) \<noteq> length (items y) then Inl ValueError
      else Inr ())"

definition fit_cell :: "prices_frame \<Rightarrow> string \<Rightarrow> error + unit" where
  "fit_cell prices c =
     (case prepare prices c of
        Inl e \<Rightarrow> Inl e
      | Inr (X, y) \<Rightarrow> check_X_y X y)"


section \<open>The training pair as the spec words it\<close>

text \<open>
  The spec's reference for the training pair: an inner join of the features frame and
  the outcome column on the (date, symbol) key, which keeps only the keys present on
  both sides, followed by dropping the rows with a missing value.
\<close>

definition inner_join :: "frame \<Rightarrow> series \<Rightarrow> error + frame" where
  "inner_join X y =
     (if name y \<in> set (columns X) then Inl ValueError
      else Inr \<lparr>columns = columns X @ [name y],
                rows = concat (map (\<lambda>(k, vs). map (\<lambda>v. (k, vs @ [v])) (matches k y)) (rows X))\<rparr>)"

definition training_pair_spec :: "frame \<Rightarrow> frame \<Rightarrow> string \<Rightarrow> error + frame \<times> series" where
  "training_pair_spec feats outs c =
     (case getcol c outs of
        Inl e \<Rightarrow> Inl e
      | Inr y \<Rightarrow>
         (case inner_join feats y of
            Inl e \<Rightarrow> Inl e
          | Inr J \<Rightarrow>
             (let Xy = dropna J in
              case getitem (name y) Xy of
                Inl e \<Rightarrow> Inl e
              | Inr y' \<Rightarrow>
                 (case getcols (columns feats) Xy of
                    Inl e \<Rightarrow> Inl e
                  | Inr X' \<Rightarrow> Inr (X', y')))))"

text \<open>The week with the AAPL row of 9 December and the CSCO rows changed.\<close>

definition week_prices_other_end :: "price_row list" where
  "week_prices_other_end =
     [bar 1 ''AAPL'' 100 101 500, bar 1 ''CSCO'' 30 31 900,
      bar 2 ''AAPL'' 101 103 600,
      bar 5 ''AAPL'' 103 102 550, bar 5 ''CSCO'' 50 52 700,
      bar 6 ''AAPL'' 102 104 650,
      bar 7 ''AAPL'' 104 105 700, bar 7 ''CSCO'' 53 52 850,
      bar 8 ''AAPL'' 105 104 500,
      bar 9 ''AAPL'' 200 250 100, bar 9 ''CSCO'' 54 55 600,
      bar 12 ''AAPL'' 250 260 100]"


section \<open>Prediction\<close>

text \<open>
  \<open>pd.Series(data, index=idx)\<close> for an array \<open>data\<close>: pandas raises when the lengths
  differ.
\<close>

definition Series :: "float64 list \<Rightarrow> key list \<Rightarrow> error + (key \<times> float64) list" where
  "Series data idx =
     (if length data = length idx then Inr (zip idx data) else Inl ValueError)"

text \<open>
  \<open>pd.Series(model.predict(X), index=X.index)\<close>. The fitted model's \<open>predict\<close> is the
  external regressor: it returns an array or raises.
\<close>

definition predict_series ::
  "(frame \<Rightarrow> error + float64 list) \<Rightarrow> frame \<Rightarrow> error + (key \<times> float64) list" where
  "predict_series predict X =
     (case predict X of
        Inl e \<Rightarrow> Inl e
      | Inr data \<Rightarrow> Series data (map fst (rows X)))"

text \<open>A regressor that answers each row with its first cell, and one that drops the last answer.\<close>

definition first_cell_model :: "frame \<Rightarrow> error + float64 list" where
  "first_cell_model X = Inr (map (\<lambda>r. case snd r of [] \<Rightarrow> Fin 0 | v # vs \<Rightarrow> v) (rows X))"

section \<open>A reader for the sample data\<close>

definition quote :: "int \<Rightarrow> real \<Rightarrow> real \<Rightarrow> real \<Rightarrow> quandl_row" where
  "quote dd o_px c_px v =
     \<lparr>Date = (2016, 12, dd), AdjOpen = Fin o_px, AdjHigh = Fin (max o_px c_px),
      AdjLow = Fin (min o_px c_px), AdjClose = Fin c_px, AdjVolume = Fin v\<rparr>"

definition sample_reader ::
  "symbol \<Rightarrow> string \<Rightarrow> string option \<Rightarrow> string option \<Rightarrow> error + quandl_row list" where
  "sample_reader s data_source begin_date end_date =
     (if data_source \<noteq> ''quandl'' then Inl ReaderError
      else if s = ''AAPL'' then Inr [quote 1 100 101 500, quote 2 101 103 600]
      else if s = ''CSCO'' then Inr [quote 1 30 31 900, quote 2 31 30 800]
      else Inl ReaderError)"


text \<open>The rows of a prices frame; the frame without an index has none.\<close>

fun frame_rows :: "prices_frame \<Rightarrow> price_row list" where
  "frame_rows Unindexed = []"
| "frame_rows (Indexed out) = out"


section \<open>The notebook's memory\<close>

text \<open>
  Variables name objects, and \<open>features[c] = ...\<close> and \<open>dropna(inplace=True)\<close> change an
  object in place, so the notebook state is a namespace from names to addresses and a
  heap from addresses to objects; new objects take the next free address.
\<close>

type_synonym addr = nat

datatype obj = PricesObj prices_frame | FrameObj frame

record notebook =
  vars :: "string \<Rightarrow> addr option"
  heap :: "addr \<Rightarrow> obj option"
  limit :: addr

text \<open>
  The statements of the two cells:
  \<open>x = pd.DataFrame(index=y.index)\<close>,
  \<open>x[c] = e(y)\<close> for an expression over the grouped prices \<open>y\<close>,
  \<open>x[c] = f(x.index.get_level_values('date'))\<close>, and \<open>x.dropna(inplace=True)\<close>.
\<close>

datatype stmt =
    NewFrameOnIndex string string
  | SetColumn string string "price_row list \<Rightarrow> float64 list" string
  | SetColumnFromDate string string "date \<Rightarrow> float64"
  | DropnaInplace string

text \<open>
  The right-hand side is evaluated before the target; a statement that raises leaves
  the state as it was.
\<close>

fun exec :: "stmt \<Rightarrow> notebook \<Rightarrow> error + notebook" where
  "exec (NewFrameOnIndex x y) nb =
     (case vars nb y of
        None \<Rightarrow> Inl NameError
      | Some a \<Rightarrow>
         (case heap nb a of
            None \<Rightarrow> Inl NameError
          | Some (PricesObj pf) \<Rightarrow>
              Inr (nb\<lparr>vars := (vars nb)(x \<mapsto> limit nb),
                      heap := (heap nb)(limit nb \<mapsto> FrameObj (new_frame (map key (frame_rows pf)))),
                      limit := Suc (limit nb)\<rparr>)
          | Some (FrameObj F) \<Rightarrow>
              Inr (nb\<lparr>vars := (vars nb)(x \<mapsto> limit nb),
                      heap := (heap nb)(limit nb \<mapsto> FrameObj (new_frame (map fst (rows F)))),
                      limit := Suc (limit nb)\<rparr>)))"
| "exec (SetColumn x c e y) nb =
     (case vars nb y of
        None \<Rightarrow> Inl NameError
      | Some a \<Rightarrow>
         (case heap nb a of
            None \<Rightarrow> Inl NameError
          | Some (FrameObj G) \<Rightarrow> Inl AttributeError
          | Some (PricesObj Unindexed) \<Rightarrow> Inl ValueError
          | Some (PricesObj (Indexed prices)) \<Rightarrow>
             (case vars nb x of
                None \<Rightarrow> Inl NameError
              | Some b \<Rightarrow>
                 (case heap nb b of
                    Some (FrameObj F) \<Rightarrow>
                      Inr (nb\<lparr>heap := (heap nb)(b \<mapsto> FrameObj (setitem c (e prices) F))\<rparr>)
                  | _ \<Rightarrow> Inl AttributeError))))"
| "exec (SetColumnFromDate x c f) nb =
     (case vars nb x of
        None \<Rightarrow> Inl NameError
      | Some b \<Rightarrow>
         (case heap nb b of
            Some (FrameObj F) \<Rightarrow>
              Inr (nb\<lparr>heap := (heap nb)
                      (b \<mapsto> FrameObj (setitem c (map (\<lambda>r. f (fst (fst r))) (rows F)) F))\<rparr>)
          | _ \<Rightarrow> Inl AttributeError))"
| "exec (DropnaInplace x) nb =
     (case vars nb x of
        None \<Rightarrow> Inl NameError
      | Some b \<Rightarrow>
         (case heap nb b of
            Some (FrameObj F) \<Rightarrow> Inr (nb\<lparr>heap := (heap nb)(b \<mapsto> FrameObj (dropna F))\<rparr>)
          | _ \<Rightarrow> Inl AttributeError))"

text \<open>A cell runs its statements in order and stops at the first that raises.\<close>

fun run :: "stmt list \<Rightarrow> notebook \<Rightarrow> notebook \<times> error option" where
  "run [] nb = (nb, None)"
| "run (s # ss) nb =
     (case exec s nb of
        Inl e \<Rightarrow> (nb, Some e)
      | Inr nb' \<Rightarrow> run ss nb')"

definition features_program :: "stmt list" where
  "features_program =
     [NewFrameOnIndex ''features'' ''prices'',
      SetColumn ''features'' ''volume_change_ratio'' volume_change_ratio ''prices'',
      SetColumn ''features'' ''momentum_5_day'' momentum_5_day ''prices'',
      SetColumn ''features'' ''intraday_chg'' intraday_chg ''prices'',
      SetColumnFromDate ''features'' ''day_of_week'' day_of_week,
      SetColumnFromDate ''features'' ''day_of_month'' day_of_month,
      DropnaInplace ''features'']"

definition outcomes_program :: "stmt list" where
  "outcomes_program =
     [NewFrameOnIndex ''outcomes'' ''prices'',
      SetColumn ''outcomes'' ''open_1'' open_1 ''prices'',
      SetColumn ''outcomes'' ''close_1'' close_1 ''prices'',
      SetColumn ''outcomes'' ''close_5'' close_5 ''prices'']"

text \<open>The object a variable names.\<close>

definition value_of :: "notebook \<Rightarrow> string \<Rightarrow> obj option" where
  "value_of nb x = (case vars nb x of None \<Rightarrow> None | Some a \<Rightarrow> heap nb a)"

text \<open>The variable a statement writes through.\<close>

fun target :: "stmt \<Rightarrow> string" where
  "target (NewFrameOnIndex x y) = x"
| "target (SetColumn x c e y) = x"
| "target (SetColumnFromDate x c f) = x"
| "target (DropnaInplace x) = x"

fun allocates :: "stmt \<Rightarrow> bool" where
  "allocates (NewFrameOnIndex x y) = True"
| "allocates s = False"

text \<open>
  A notebook in which \<open>prices\<close> holds the sample week, and \<open>features\<close> and \<open>X\<close> both
  name an older features frame.
\<close>

definition sample_notebook :: notebook where
  "sample_notebook =
     \<lparr>vars = [''prices'' \<mapsto> 0, ''features'' \<mapsto> 1, ''X'' \<mapsto> 1],
      heap = [0 \<mapsto> PricesObj (Indexed week_prices),
              1 \<mapsto> FrameObj \<lparr>columns = [''stale''], rows = []\<rparr>],
      limit = 2\<rparr>"


text \<open>
  What an in-place statement does to the frame it writes, given the price table it
  reads, and the variable it reads the prices from.
\<close>

fun effect :: "price_row list \<Rightarrow> stmt \<Rightarrow> frame \<Rightarrow> frame" where
  "effect prices (SetColumn x c e y) F = setitem c (e prices) F"
| "effect prices (SetColumnFromDate x c f) F = setitem c (map (\<lambda>r. f (fst (fst r))) (rows F)) F"
| "effect prices (DropnaInplace x) F = dropna F"
| "effect prices (NewFrameOnIndex x y) F = F"

fun reads_from :: "string \<Rightarrow> stmt \<Rightarrow> bool" where
  "reads_from y (SetColumn x c e y') = (y' = y)"
| "reads_from y s = True"


section \<open>Lengths and positions\<close>

lemma length_shift [simp]: "length (shift k xs) = length xs"
  by (simp add: shift_def)

lemma length_diff [simp]: "length (diff k xs) = length xs"
  by (simp add: diff_def)

lemma length_pad_from [simp]: "length (pad_from v xs) = length xs"
  by (induction xs arbitrary: v) auto

lemma length_pct_change [simp]: "length (pct_change k xs) = length xs"
  by (simp add: pct_change_def Let_def)

lemma length_groupby_symbol [simp]: "length (groupby_symbol col op prices) = length prices"
  by (simp add: groupby_symbol_def)

lemma pad_from_append: "pad_from v (a @ b) = pad_from v a @ pad_from (carried v a) b"
  by (induction a arbitrary: v) auto

lemma pad_from_present: "NaN \<notin> set xs \<Longrightarrow> pad_from v xs = xs"
  by (induction xs arbitrary: v) auto

lemma pad_from_start: "x \<noteq> NaN \<Longrightarrow> pad_from v (x # xs) = pad_from w (x # xs)"
  by simp

lemma fst_key [simp]: "fst (key r) = date r" and snd_key [simp]: "snd (key r) = symbol r"
  by (simp_all add: key_def)

lemma grp_append: "grp s (a @ b) = grp s a @ grp s b"
  by (simp add: grp_def)

lemma pos_in_group:
  assumes "i < length prices"
  shows "pos prices i < length (grp (symbol (prices ! i)) prices)"
    and "grp (symbol (prices ! i)) prices ! pos prices i = prices ! i"
proof -
  let ?s = "symbol (prices ! i)"
  have split: "prices = take i prices @ prices ! i # drop (Suc i) prices"
    using assms by (simp add: id_take_nth_drop)
  have "grp ?s prices = grp ?s (take i prices) @ grp ?s (prices ! i # drop (Suc i) prices)"
    by (subst split) (simp only: grp_append)
  then have g: "grp ?s prices = grp ?s (take i prices) @ prices ! i # grp ?s (drop (Suc i) prices)"
    by (simp add: grp_def)
  show "pos prices i < length (grp ?s prices)"
    by (subst g) (simp add: pos_def)
  show "grp ?s prices ! pos prices i = prices ! i"
    by (subst g) (simp add: pos_def)
qed

lemma pos_append_left: "i < length p \<Longrightarrow> pos (p @ q) i = pos p i"
  by (simp add: pos_def nth_append)

lemma pos_append_last: "pos (p @ [r]) (length p) = length (grp (symbol r) p)"
  by (simp add: pos_def)

section \<open>The cells of a grouped column\<close>

lemma cell_at_here: "j < length g \<Longrightarrow> cell_at col g (int j) = col (g ! j)"
  by (simp add: cell_at_def)

lemma pad_at_here: "j < length g \<Longrightarrow> pad_at v g (int j) = pad_from v (map close g) ! j"
  by (simp add: pad_at_def)

lemma shift_nth:
  "j < length xs \<Longrightarrow>
   shift k xs ! j =
     (if 0 \<le> int j - k \<and> int j - k < int (length xs) then xs ! nat (int j - k) else NaN)"
  by (simp add: shift_def Let_def)

lemma shift_col_nth:
  "j < length g \<Longrightarrow> shift k (map col g) ! j = cell_at col g (int j - k)"
  by (auto simp: shift_nth cell_at_def nat_less_iff)

lemma diff_col_nth:
  "j < length g \<Longrightarrow>
   diff k (map col g) ! j = fsub (cell_at col g (int j)) (cell_at col g (int j - k))"
  by (simp add: diff_def shift_col_nth cell_at_here)

lemma pct_change_close_nth:
  "j < length g \<Longrightarrow>
   pct_change k (map close g) ! j =
     fsub (fdiv (pad_at NaN g (int j)) (pad_at NaN g (int j - k))) (Fin 1)"
  by (auto simp: pct_change_def Let_def shift_nth pad_at_def nat_less_iff)

lemma map2_upt: "map2 f (map A [0..<n]) (map B [0..<n]) = map (\<lambda>i. f (A i) (B i)) [0..<n]"
  by (simp add: zip_map_map zip_same_conv_map)

lemma setitem_fresh:
  "c \<notin> set cs \<Longrightarrow>
   setitem c (map W [0..<n]) \<lparr>columns = cs, rows = map (\<lambda>i. (K i, V i)) [0..<n]\<rparr> =
     \<lparr>columns = cs @ [c], rows = map (\<lambda>i. (K i, V i @ [W i])) [0..<n]\<rparr>"
  by (simp add: setitem_def zip_map_map zip_same_conv_map)

lemma new_frame_upt:
  "new_frame (map key prices) =
     \<lparr>columns = [], rows = map (\<lambda>i. (key (prices ! i), [])) [0..<length prices]\<rparr>"
proof -
  have "map (\<lambda>k. (k, [])) (map key prices) =
        map (\<lambda>i. (key (prices ! i), [])) [0..<length prices]"
    by (rule nth_equalityI) simp_all
  then show ?thesis by (simp add: new_frame_def)
qed

section \<open>The derived frames, row by row\<close>

lemma features_all_rows:
  "features_all prices =
     \<lparr>columns = [''volume_change_ratio'', ''momentum_5_day'', ''intraday_chg'',
                 ''day_of_week'', ''day_of_month''],
      rows = map (\<lambda>i. (key (prices ! i),
                       feature_cells (grp (symbol (prices ! i)) prices) (pos prices i)))
               [0..<length prices]\<rparr>"
proof -
  define C where "C = (\<lambda>i.
      [fdiv (diff 1 (map volume (grp (symbol (prices ! i)) prices)) ! pos prices i)
            (shift 1 (map volume (grp (symbol (prices ! i)) prices)) ! pos prices i),
       pct_change 5 (map close (grp (symbol (prices ! i)) prices)) ! pos prices i,
       fdiv (fsub (shift 0 (map close (grp (symbol (prices ! i)) prices)) ! pos prices i)
                  (shift 0 (map openp (grp (symbol (prices ! i)) prices)) ! pos prices i))
            (shift 0 (map openp (grp (symbol (prices ! i)) prices)) ! pos prices i),
       Fin (of_int (weekday (date (prices ! i)))),
       Fin (of_int (day (date (prices ! i))))])"
  have cells: "\<And>i. i < length prices \<Longrightarrow>
      C i = feature_cells (grp (symbol (prices ! i)) prices) (pos prices i)"
    by (simp add: C_def pos_in_group shift_col_nth diff_col_nth pct_change_close_nth feature_cells_def)
  have raw: "features_all prices =
     \<lparr>columns = [''volume_change_ratio'', ''momentum_5_day'', ''intraday_chg'',
                 ''day_of_week'', ''day_of_month''],
      rows = map (\<lambda>i. (key (prices ! i), C i)) [0..<length prices]\<rparr>"
    by (simp add: C_def features_all_def volume_change_ratio_def momentum_5_day_def
          intraday_chg_def day_of_week_def day_of_month_def Let_def new_frame_upt setitem_fresh
          map2_upt groupby_symbol_def o_def)
  have "map (\<lambda>i. (key (prices ! i), C i)) [0..<length prices] =
        map (\<lambda>i. (key (prices ! i),
                   feature_cells (grp (symbol (prices ! i)) prices) (pos prices i)))
          [0..<length prices]"
    by (rule map_cong) (simp_all add: cells)
  then show ?thesis by (simp only: raw)
qed

lemma outcomes_rows:
  "outcomes prices =
     \<lparr>columns = [''open_1'', ''close_1'', ''close_5''],
      rows = map (\<lambda>i. (key (prices ! i),
                       outcome_cells (grp (symbol (prices ! i)) prices) (pos prices i)))
               [0..<length prices]\<rparr>"
proof -
  define C where "C = (\<lambda>i.
      [fsub (fdiv (shift (- 1) (map openp (grp (symbol (prices ! i)) prices)) ! pos prices i)
                  (shift 0 (map close (grp (symbol (prices ! i)) prices)) ! pos prices i))
            (Fin 1),
       pct_change (- 1) (map close (grp (symbol (prices ! i)) prices)) ! pos prices i,
       pct_change (- 5) (map close (grp (symbol (prices ! i)) prices)) ! pos prices i])"
  have cells: "\<And>i. i < length prices \<Longrightarrow>
      C i = outcome_cells (grp (symbol (prices ! i)) prices) (pos prices i)"
    by (simp add: C_def pos_in_group shift_col_nth pct_change_close_nth outcome_cells_def
          outcome_cells_from_def)
  have raw: "outcomes prices =
     \<lparr>columns = [''open_1'', ''close_1'', ''close_5''],
      rows = map (\<lambda>i. (key (prices ! i), C i)) [0..<length prices]\<rparr>"
    by (simp add: C_def outcomes_def open_1_def close_1_def close_5_def Let_def new_frame_upt
          setitem_fresh map2_upt groupby_symbol_def o_def)
  have "map (\<lambda>i. (key (prices ! i), C i)) [0..<length prices] =
        map (\<lambda>i. (key (prices ! i),
                   outcome_cells (grp (symbol (prices ! i)) prices) (pos prices i)))
          [0..<length prices]"
    by (rule map_cong) (simp_all add: cells)
  then show ?thesis by (simp only: raw)
qed

lemma by_symbol_rows:
  "filter (\<lambda>x. snd (fst x) = s)
     (map (\<lambda>i. (key (p ! i), h (symbol (p ! i)) (pos p i))) [0..<length p]) =
   map (\<lambda>j. (key (grp s p ! j), h s j)) [0..<length (grp s p)]"
proof (induction p rule: rev_induct)
  case Nil
  show ?case by (simp add: grp_def)
next
  case (snoc r p)
  have front:
    "map (\<lambda>i. (key ((p @ [r]) ! i), h (symbol ((p @ [r]) ! i)) (pos (p @ [r]) i))) [0..<length p] =
     map (\<lambda>i. (key (p ! i), h (symbol (p ! i)) (pos p i))) [0..<length p]"
    by (rule map_cong) (simp_all add: nth_append pos_append_left)
  have old: "map (\<lambda>j. (key ((grp s p @ q) ! j), h s j)) [0..<length (grp s p)] =
             map (\<lambda>j. (key (grp s p ! j), h s j)) [0..<length (grp s p)]" for q
    by (rule map_cong) (simp_all add: nth_append)
  show ?case
  proof (cases "symbol r = s")
    case True
    then have g: "grp s (p @ [r]) = grp s p @ [r]" by (simp add: grp_def)
    show ?thesis
      using True snoc.IH by (simp add: g front old pos_append_last)
  next
    case False
    then have g: "grp s (p @ [r]) = grp s p" by (simp add: grp_def)
    show ?thesis
      using False snoc.IH by (simp add: g front)
  qed
qed

lemma by_symbol_group:
  "filter (\<lambda>x. snd (fst x) = s)
     (map (\<lambda>i. (key (p ! i), H (grp (symbol (p ! i)) p) (pos p i))) [0..<length p]) =
   group_rows H (grp s p)"
  using by_symbol_rows [where h = "\<lambda>s'. H (grp s' p)"] by (simp add: group_rows_def)

lemma features_of_symbol:
  "rows_of_symbol s (features prices) = filter no_missing (group_rows feature_cells (grp s prices))"
proof -
  have "rows_of_symbol s (features prices) =
        filter no_missing (filter (\<lambda>x. snd (fst x) = s) (rows (features_all prices)))"
    by (auto simp: rows_of_symbol_def features_def dropna_def no_missing_def case_prod_unfold
          intro: filter_cong)
  then show ?thesis
    by (simp add: features_all_rows by_symbol_group)
qed

lemma outcomes_of_symbol:
  "rows_of_symbol s (outcomes prices) = group_rows outcome_cells (grp s prices)"
  by (simp add: rows_of_symbol_def outcomes_rows by_symbol_group)


section \<open>Sorted tables\<close>

lemma sorted_split_le:
  fixes f :: "'a \<Rightarrow> 'b::linorder"
  shows "sorted (map f xs) \<Longrightarrow> xs = filter (\<lambda>x. f x \<le> d) xs @ filter (\<lambda>x. d < f x) xs"
proof (induction xs)
  case Nil
  show ?case by simp
next
  case (Cons x xs)
  show ?case
  proof (cases "f x \<le> d")
    case True
    with Cons show ?thesis by simp
  next
    case False
    with Cons.prems have "\<forall>y\<in>set xs. d < f y" by fastforce
    then have "filter (\<lambda>x. f x \<le> d) xs = []" "filter (\<lambda>x. d < f x) xs = xs"
      by (auto simp: filter_empty_conv filter_id_conv)
    with False show ?thesis by simp
  qed
qed


lemma key_le_date:
  assumes "key x \<le> key y"
  shows "date x \<le> date y"
proof -
  from assms less_eq_prod_def [of "key x" "key y"]
  have "fst (key x) < fst (key y) \<or> fst (key x) \<le> fst (key y) \<and> snd (key x) \<le> snd (key y)"
    by blast
  then have "date x < date y \<or> date x \<le> date y"
    by (auto simp only: fst_key)
  then show ?thesis
    by (rule disjE) (rule less_imp_le)
qed

lemma sorted_dates_grp:
  assumes "sorted (map key prices)"
  shows "sorted (map date (grp s prices))"
proof -
  from assms have "sorted_wrt (\<lambda>x y. key x \<le> key y) prices"
    by (simp add: sorted_map)
  then have "sorted_wrt (\<lambda>x y. date x \<le> date y) prices"
    by (rule sorted_wrt_mono_rel [rotated]) (simp add: key_le_date)
  then have "sorted_wrt (\<lambda>x y. date x \<le> date y) (grp s prices)"
    unfolding grp_def by (rule sorted_wrt_filter)
  then show ?thesis by (simp add: sorted_map)
qed

lemma past_grp: "past s d prices = filter (\<lambda>r. date r \<le> d) (grp s prices)"
  by (auto simp: past_def grp_def intro: filter_cong)



lemma rows_at_symbol: "rows_at (d, s) F = filter (\<lambda>x. fst x = (d, s)) (rows_of_symbol s F)"
  by (auto simp: rows_at_def rows_of_symbol_def intro: filter_cong)


section \<open>Features read only the earlier part of a group, outcomes only the later part\<close>

lemma cell_at_prefix: "i < int (length a) \<Longrightarrow> cell_at col (a @ b) i = cell_at col a i"
proof (cases "0 \<le> i")
  case True
  assume "i < int (length a)"
  with True have "nat i < length a" by linarith
  with True \<open>i < int (length a)\<close> show ?thesis
    by (simp add: cell_at_def nth_append)
next
  case False
  then show ?thesis by (simp add: cell_at_def)
qed

lemma pad_at_prefix: "i < int (length a) \<Longrightarrow> pad_at v (a @ b) i = pad_at v a i"
proof (cases "0 \<le> i")
  case True
  assume "i < int (length a)"
  with True have "nat i < length a" by linarith
  with True \<open>i < int (length a)\<close> show ?thesis
    by (simp add: pad_at_def pad_from_append nth_append)
next
  case False
  then show ?thesis by (simp add: pad_at_def)
qed

lemma feature_cells_prefix: "j < length a \<Longrightarrow> feature_cells (a @ b) j = feature_cells a j"
  by (simp add: feature_cells_def cell_at_prefix pad_at_prefix nth_append)





lemma upt_split: "[0..<m + n] = [0..<m] @ map (\<lambda>j. m + j) [0..<n]"
  by (induction n) simp_all


lemma group_rows_append:
  "group_rows cells (a @ b) =
     map (\<lambda>j. (key (a ! j), cells (a @ b) j)) [0..<length a] @
     map (\<lambda>j. (key (b ! j), cells (a @ b) (length a + j))) [0..<length b]"
proof -
  have front: "map (\<lambda>j. (key ((a @ b) ! j), cells (a @ b) j)) [0..<length a] =
               map (\<lambda>j. (key (a ! j), cells (a @ b) j)) [0..<length a]"
    by (rule map_cong) (simp_all add: nth_append)
  show ?thesis
    by (simp add: group_rows_def upt_split front o_def)
qed

lemma group_rows_features_append:
  "group_rows feature_cells (a @ b) =
     group_rows feature_cells a @
     map (\<lambda>j. (key (b ! j), feature_cells (a @ b) (length a + j))) [0..<length b]"
proof -
  have "map (\<lambda>j. (key (a ! j), feature_cells (a @ b) j)) [0..<length a] =
        group_rows feature_cells a"
    unfolding group_rows_def by (rule map_cong) (simp_all add: feature_cells_prefix)
  then show ?thesis
    by (simp only: group_rows_append)
qed



lemma no_row_at:
  assumes "\<And>j. j < n \<Longrightarrow> date (b ! j) \<noteq> d"
  shows "filter (\<lambda>x. fst x = (d, s)) (map (\<lambda>j. (key (b ! j), V j)) [0..<n]) = []"
proof -
  have "fst (key (b ! j), V j) \<noteq> (d, s)" if "j < n" for j
    using assms [OF that] by (simp add: key_def)
  then show ?thesis
    by (simp add: filter_empty_conv)
qed

lemma features_at:
  assumes "sorted (map key prices)"
  shows "rows_at (d, s) (features prices) =
         filter (\<lambda>x. fst x = (d, s))
           (filter no_missing (group_rows feature_cells (past s d prices)))"
proof -
  let ?g = "grp s prices"
  let ?a = "past s d prices"
  let ?b = "filter (\<lambda>r. d < date r) ?g"
  let ?R = "map (\<lambda>j. (key (?b ! j), feature_cells (?a @ ?b) (length ?a + j))) [0..<length ?b]"
  have g: "?g = ?a @ ?b"
    using sorted_split_le [OF sorted_dates_grp [OF assms], of s d] by (simp only: past_grp)
  have "date (?b ! j) \<noteq> d" if "j < length ?b" for j
    using nth_mem [OF that] by auto
  then have "filter (\<lambda>x. fst x = (d, s)) ?R = []"
    by (rule no_row_at)
  then have later: "filter (\<lambda>x. fst x = (d, s)) (filter no_missing ?R) = []"
    by (simp add: filter_empty_conv)
  have "rows_at (d, s) (features prices) =
        filter (\<lambda>x. fst x = (d, s)) (filter no_missing (group_rows feature_cells ?g))"
    by (simp only: rows_at_symbol features_of_symbol)
  also have "\<dots> = filter (\<lambda>x. fst x = (d, s))
                     (filter no_missing (group_rows feature_cells (?a @ ?b)))"
    using g by simp
  also have "\<dots> = filter (\<lambda>x. fst x = (d, s)) (filter no_missing (group_rows feature_cells ?a))"
    by (simp only: group_rows_features_append filter_append later append_Nil2)
  finally show ?thesis .
qed










section \<open>Symbols and dates that a row does not read\<close>

text \<open>
  C9. The rows of the features frame and of the outcomes frame under a symbol \<open>s\<close> are
  computed from the price rows of \<open>s\<close> alone: two price tables with the same rows of
  \<open>s\<close>, whatever their other rows, give the same rows under \<open>s\<close> in both derived frames.
  No \<open>diff\<close>, \<open>shift\<close> or \<open>pct_change\<close> reads across a symbol boundary.
\<close>

theorem per_symbol_noninterference:
  assumes "grp s prices = grp s prices'"
  shows "rows_of_symbol s (features prices) = rows_of_symbol s (features prices') \<and>
         rows_of_symbol s (outcomes prices) = rows_of_symbol s (outcomes prices')"
  using assms by (simp add: features_of_symbol outcomes_of_symbol)

theorem per_symbol_noninterference_witness:
  "grp ''AAPL'' week_prices = grp ''AAPL'' week_prices_other_csco \<and>
   grp ''CSCO'' week_prices \<noteq> grp ''CSCO'' week_prices_other_csco \<and>
   rows_of_symbol ''AAPL'' (features week_prices) =
     rows_of_symbol ''AAPL'' (features week_prices_other_csco) \<and>
   rows_of_symbol ''AAPL'' (outcomes week_prices) =
     rows_of_symbol ''AAPL'' (outcomes week_prices_other_csco)"
proof -
  have same: "grp ''AAPL'' week_prices = grp ''AAPL'' week_prices_other_csco"
    by code_simp
  have other: "grp ''CSCO'' week_prices \<noteq> grp ''CSCO'' week_prices_other_csco"
    by code_simp
  from per_symbol_noninterference [OF same] same other show ?thesis
    by blast
qed


text \<open>
  A missing close is padded from the rows before it. The two tables below have the same
  rows from 2 December on, where the close is missing, and differ in the close of
  1 December; \<open>close_1\<close> of 2 December differs.
\<close>

lemma outcomes_padding_reads_earlier_close:
  "from_date ''AAPL'' (2016, 12, 2) gap_prices =
     from_date ''AAPL'' (2016, 12, 2) gap_prices_other_close \<and>
   rows_at ((2016, 12, 2), ''AAPL'') (outcomes gap_prices) =
     [(((2016, 12, 2), ''AAPL''), [NaN, Fin (- (1 / 102)), NaN])] \<and>
   rows_at ((2016, 12, 2), ''AAPL'') (outcomes gap_prices_other_close) =
     [(((2016, 12, 2), ''AAPL''), [NaN, Fin (- (1 / 2)), NaN])]"
  by code_simp




section \<open>Where cells are missing\<close>

lemma fsub_one_NaN [simp]: "fsub x (Fin 1) = NaN \<longleftrightarrow> x = NaN"
  by (cases x) simp_all

lemma fdiv_NaN_right [simp]: "fdiv x NaN = NaN"
  by (cases x) simp_all

lemma fdiv_NaN_iff: "fdiv x y = NaN \<longleftrightarrow> undefined_ratio x y"
  by (cases x; cases y) (simp_all add: undefined_ratio_def)

lemma NaN_fdiv_iff: "NaN = fdiv x y \<longleftrightarrow> undefined_ratio x y"
  using fdiv_NaN_iff [of x y] by auto

lemma NaN_fsub_one [simp]: "NaN = fsub x (Fin 1) \<longleftrightarrow> x = NaN"
  by (cases x) simp_all

lemma undefined_ratio_Fin [simp]: "undefined_ratio (Fin a) (Fin b) \<longleftrightarrow> a = 0 \<and> b = 0"
  by (simp add: undefined_ratio_def)

lemma is_num_iff: "is_num x \<longleftrightarrow> (\<exists>a. x = Fin a)"
  by (cases x) simp_all

lemma cell_at_back:
  "j < length g \<Longrightarrow>
   cell_at col g (int j - int k) = (if k \<le> j then col (g ! (j - k)) else NaN)"
  by (auto simp: cell_at_def nat_diff_distrib')

lemma cell_at_fwd:
  "cell_at col g (int j + int k) = (if j + k < length g then col (g ! (j + k)) else NaN)"
  by (auto simp: cell_at_def nat_add_distrib)

lemma pad_at_back:
  "j < length g \<Longrightarrow>
   pad_at v g (int j - int k) = (if k \<le> j then pad_from v (map close g) ! (j - k) else NaN)"
  by (auto simp: pad_at_def nat_diff_distrib')

lemma pad_at_fwd:
  "pad_at v g (int j + int k) =
     (if j + k < length g then pad_from v (map close g) ! (j + k) else NaN)"
  by (auto simp: pad_at_def nat_add_distrib)

lemma pad_from_nth_present:
  "j < length xs \<Longrightarrow> xs ! j \<noteq> NaN \<Longrightarrow> pad_from v xs ! j = xs ! j"
proof (induction xs arbitrary: v j)
  case Nil
  then show ?case by simp
next
  case (Cons x xs)
  then show ?case by (cases j) auto
qed

lemma all_le_Suc: "(\<forall>k\<le>Suc n. P k) \<longleftrightarrow> P 0 \<and> (\<forall>k\<le>n. P (Suc k))"
proof
  assume "\<forall>k\<le>Suc n. P k"
  then show "P 0 \<and> (\<forall>k\<le>n. P (Suc k))" by simp
next
  assume a: "P 0 \<and> (\<forall>k\<le>n. P (Suc k))"
  show "\<forall>k\<le>Suc n. P k"
  proof (intro allI impI)
    fix k assume "k \<le> Suc n"
    with a show "P k" by (cases k) simp_all
  qed
qed

lemma pad_from_nth_NaN:
  "j < length xs \<Longrightarrow> pad_from v xs ! j = NaN \<longleftrightarrow> v = NaN \<and> (\<forall>k\<le>j. xs ! k = NaN)"
proof (induction xs arbitrary: v j)
  case Nil
  then show ?case by simp
next
  case (Cons x xs)
  show ?case
  proof (cases j)
    case 0
    then show ?thesis by simp
  next
    case (Suc n)
    with Cons.prems have n: "n < length xs" by simp
    from Cons.IH [OF n] show ?thesis
      by (simp add: Suc all_le_Suc)
  qed
qed

lemma feature_cells_explicit:
  assumes "j < length g"
  shows "feature_cells g j =
     [if 1 \<le> j
      then fdiv (fsub (volume (g ! j)) (volume (g ! (j - 1)))) (volume (g ! (j - 1)))
      else NaN,
      if 5 \<le> j
      then fsub (fdiv (pad_from NaN (map close g) ! j) (pad_from NaN (map close g) ! (j - 5)))
             (Fin 1)
      else NaN,
      fdiv (fsub (close (g ! j)) (openp (g ! j))) (openp (g ! j)),
      Fin (of_int (weekday (date (g ! j)))),
      Fin (of_int (day (date (g ! j))))]"
  using assms cell_at_back [of j g _ 1] pad_at_back [of j g _ 5]
  by (simp add: feature_cells_def cell_at_here pad_at_here)

lemma outcome_cells_explicit:
  assumes "j < length g"
  shows "outcome_cells g j =
     [if j + 1 < length g
      then fsub (fdiv (openp (g ! (j + 1))) (close (g ! j))) (Fin 1) else NaN,
      if j + 1 < length g
      then fsub (fdiv (pad_from NaN (map close g) ! j) (pad_from NaN (map close g) ! (j + 1)))
             (Fin 1)
      else NaN,
      if j + 5 < length g
      then fsub (fdiv (pad_from NaN (map close g) ! j) (pad_from NaN (map close g) ! (j + 5)))
             (Fin 1)
      else NaN]"
  using assms cell_at_fwd [of _ g j 1] pad_at_fwd [of _ g j 1] pad_at_fwd [of _ g j 5]
  by (simp add: outcome_cells_def outcome_cells_from_def cell_at_here pad_at_here)

lemma survives_iff:
  assumes "i < length prices"
  shows "survives prices i \<longleftrightarrow>
         no_missing (key (prices ! i),
                     feature_cells (grp (symbol (prices ! i)) prices) (pos prices i))"
  using pos_in_group(1) [OF assms]
  by (auto simp: survives_def Let_def no_missing_def feature_cells_explicit fdiv_NaN_iff
        NaN_fdiv_iff)

lemma features_rows:
  "rows (features prices) =
     map (\<lambda>i. (key (prices ! i),
                feature_cells (grp (symbol (prices ! i)) prices) (pos prices i)))
       (filter (survives prices) [0..<length prices])"
proof -
  let ?F = "\<lambda>i. (key (prices ! i),
                  feature_cells (grp (symbol (prices ! i)) prices) (pos prices i))"
  have "rows (features prices) = filter no_missing (map ?F [0..<length prices])"
    by (auto simp: features_def dropna_def features_all_rows no_missing_def case_prod_unfold
          intro: filter_cong)
  also have "\<dots> = map ?F (filter (\<lambda>i. no_missing (?F i)) [0..<length prices])"
    by (simp add: filter_map o_def)
  also have "filter (\<lambda>i. no_missing (?F i)) [0..<length prices] =
             filter (survives prices) [0..<length prices]"
    by (rule filter_cong) (simp_all add: survives_iff)
  finally show ?thesis .
qed

lemma outcome_cells_missing:
  assumes "j < length g"
  shows "length (outcome_cells g j) = 3"
    and "outcome_cells g j ! 0 = NaN \<longleftrightarrow>
         length g \<le> j + 1 \<or> undefined_ratio (openp (g ! (j + 1))) (close (g ! j))"
    and "outcome_cells g j ! 1 = NaN \<longleftrightarrow>
         length g \<le> j + 1 \<or>
         undefined_ratio (pad_from NaN (map close g) ! j) (pad_from NaN (map close g) ! (j + 1))"
    and "outcome_cells g j ! 2 = NaN \<longleftrightarrow>
         length g \<le> j + 5 \<or>
         undefined_ratio (pad_from NaN (map close g) ! j) (pad_from NaN (map close g) ! (j + 5))"
  using assms by (auto simp: outcome_cells_explicit fdiv_NaN_iff)

lemma numbers_present:
  assumes "\<forall>r\<in>set g. is_num (col r)"
  shows "NaN \<notin> set (map col g)"
proof
  assume "NaN \<in> set (map col g)"
  then obtain r where "r \<in> set g" "col r = NaN" by auto
  with assms show False by auto
qed

lemma undefined_ratio_numbers:
  assumes "is_num x" and "is_num y"
  shows "undefined_ratio x y \<longleftrightarrow> x = Fin 0 \<and> y = Fin 0"
  using assms by (auto simp: is_num_iff)

lemma undefined_change_numbers:
  assumes "is_num x" and "is_num y"
  shows "undefined_ratio (fsub x y) y \<longleftrightarrow> x = Fin 0 \<and> y = Fin 0"
  using assms by (auto simp: is_num_iff)


lemma outcome_cells_numbers:
  assumes j: "j < length g" and num: "\<forall>r\<in>set g. is_num (openp r) \<and> is_num (close r)"
  shows "outcome_cells g j ! 0 = NaN \<longleftrightarrow>
         length g \<le> j + 1 \<or> openp (g ! (j + 1)) = Fin 0 \<and> close (g ! j) = Fin 0"
    and "outcome_cells g j ! 1 = NaN \<longleftrightarrow>
         length g \<le> j + 1 \<or> close (g ! j) = Fin 0 \<and> close (g ! (j + 1)) = Fin 0"
    and "outcome_cells g j ! 2 = NaN \<longleftrightarrow>
         length g \<le> j + 5 \<or> close (g ! j) = Fin 0 \<and> close (g ! (j + 5)) = Fin 0"
proof -
  from num have "\<forall>r\<in>set g. is_num (close r)" by simp
  then have "NaN \<notin> set (map close g)" by (rule numbers_present)
  then have P: "pad_from NaN (map close g) = map close g" by (rule pad_from_present)
  have n: "is_num (openp (g ! n))" "is_num (close (g ! n))" if "n < length g" for n
    using num nth_mem [OF that] by simp_all
  show "outcome_cells g j ! 0 = NaN \<longleftrightarrow>
        length g \<le> j + 1 \<or> openp (g ! (j + 1)) = Fin 0 \<and> close (g ! j) = Fin 0"
  proof (cases "length g \<le> j + 1")
    case True
    with outcome_cells_missing(2) [OF j] show ?thesis by simp
  next
    case False
    then have "j + 1 < length g" by simp
    from n(1) [OF this] n(2) [OF j] False outcome_cells_missing(2) [OF j] show ?thesis
      by (simp add: undefined_ratio_numbers)
  qed
  show "outcome_cells g j ! 1 = NaN \<longleftrightarrow>
        length g \<le> j + 1 \<or> close (g ! j) = Fin 0 \<and> close (g ! (j + 1)) = Fin 0"
  proof (cases "length g \<le> j + 1")
    case True
    with outcome_cells_missing(3) [OF j] show ?thesis by simp
  next
    case False
    then have l: "j + 1 < length g" by simp
    from n(2) [OF this] n(2) [OF j] False j l outcome_cells_missing(3) [OF j] show ?thesis
      by (simp add: P undefined_ratio_numbers)
  qed
  show "outcome_cells g j ! 2 = NaN \<longleftrightarrow>
        length g \<le> j + 5 \<or> close (g ! j) = Fin 0 \<and> close (g ! (j + 5)) = Fin 0"
  proof (cases "length g \<le> j + 5")
    case True
    with outcome_cells_missing(4) [OF j] show ?thesis by simp
  next
    case False
    then have l: "j + 5 < length g" by simp
    from n(2) [OF this] n(2) [OF j] False j l outcome_cells_missing(4) [OF j] show ?thesis
      by (simp add: P undefined_ratio_numbers)
  qed
qed

text \<open>
  C4, as the spec states it: an outcome is missing only at the end of a symbol's
  history. It is also missing where the ratio is zero divided by zero: below, the first
  of two rows has a later row, and its \<open>open_1\<close> and \<open>close_1\<close> are missing.
\<close>

theorem outcomes_missing_only_at_end_counterexample:
  "length (grp ''AAPL'' zero_quotes) = 2 \<and> pos zero_quotes 0 = 0 \<and>
   rows (outcomes zero_quotes) =
     [(((2016, 12, 1), ''AAPL''), [NaN, NaN, NaN]),
      (((2016, 12, 2), ''AAPL''), [NaN, NaN, NaN])]"
  by code_simp

text \<open>
  C4, amended. The outcomes frame has one row per price row, under the same key. In the
  row at position \<open>j\<close> of its symbol's group \<open>g\<close>, an outcome is missing exactly when
  the later row it reads does not exist (\<open>j\<close> is the last position for \<open>open_1\<close> and
  \<open>close_1\<close>, fewer than five rows follow for \<open>close_5\<close>) or its ratio is undefined: a
  cell of the ratio is missing, both are zero, or both are infinite. The ratio of
  \<open>open_1\<close> is the next open over the row's close; the ratios of \<open>close_1\<close> and
  \<open>close_5\<close> are taken on the padded closes, where a padded close is the close itself
  when that is present and is missing only when the close of the row and of every
  earlier row of the symbol is missing. When every open and close of the symbol is a
  number, an outcome is missing exactly when the later row does not exist or the two
  prices of its ratio are both zero; when moreover no close is zero, exactly when the
  later row does not exist: in the last row of the symbol for \<open>open_1\<close> and \<open>close_1\<close>,
  in its last five rows for \<open>close_5\<close>.
\<close>

theorem outcomes_missing_exactly:
  assumes "i < length prices"
  shows "length (rows (outcomes prices)) = length prices \<and>
    (let g = grp (symbol (prices ! i)) prices;
         j = pos prices i;
         padded = pad_from NaN (map close g);
         cells = snd (rows (outcomes prices) ! i)
     in fst (rows (outcomes prices) ! i) = key (prices ! i) \<and>
        j < length g \<and> g ! j = prices ! i \<and> length cells = 3 \<and>
        (cells ! 0 = NaN \<longleftrightarrow>
           length g \<le> j + 1 \<or> undefined_ratio (openp (g ! (j + 1))) (close (g ! j))) \<and>
        (cells ! 1 = NaN \<longleftrightarrow>
           length g \<le> j + 1 \<or> undefined_ratio (padded ! j) (padded ! (j + 1))) \<and>
        (cells ! 2 = NaN \<longleftrightarrow>
           length g \<le> j + 5 \<or> undefined_ratio (padded ! j) (padded ! (j + 5))) \<and>
        (\<forall>n<length g.
           (padded ! n = NaN \<longleftrightarrow> (\<forall>k\<le>n. close (g ! k) = NaN)) \<and>
           (close (g ! n) \<noteq> NaN \<longrightarrow> padded ! n = close (g ! n))) \<and>
        ((\<forall>r\<in>set g. is_num (openp r) \<and> is_num (close r)) \<longrightarrow>
           (cells ! 0 = NaN \<longleftrightarrow>
              length g \<le> j + 1 \<or> openp (g ! (j + 1)) = Fin 0 \<and> close (g ! j) = Fin 0) \<and>
           (cells ! 1 = NaN \<longleftrightarrow>
              length g \<le> j + 1 \<or> close (g ! j) = Fin 0 \<and> close (g ! (j + 1)) = Fin 0) \<and>
           (cells ! 2 = NaN \<longleftrightarrow>
              length g \<le> j + 5 \<or> close (g ! j) = Fin 0 \<and> close (g ! (j + 5)) = Fin 0)) \<and>
        ((\<forall>r\<in>set g. is_num (openp r) \<and> is_num (close r) \<and> close r \<noteq> Fin 0) \<longrightarrow>
           (cells ! 0 = NaN \<longleftrightarrow> length g \<le> j + 1) \<and>
           (cells ! 1 = NaN \<longleftrightarrow> length g \<le> j + 1) \<and>
           (cells ! 2 = NaN \<longleftrightarrow> length g \<le> j + 5)))"
proof -
  let ?g = "grp (symbol (prices ! i)) prices"
  let ?j = "pos prices i"
  let ?P = "pad_from NaN (map close ?g)"
  let ?c = "outcome_cells ?g ?j"
  have j: "?j < length ?g" and here: "?g ! ?j = prices ! i"
    using pos_in_group [OF assms] by simp_all
  have row: "rows (outcomes prices) ! i = (key (prices ! i), ?c)"
    using assms by (simp add: outcomes_rows)
  have len: "length (rows (outcomes prices)) = length prices"
    by (simp add: outcomes_rows)
  note general = outcome_cells_missing [OF j]
  have pad: "\<forall>n<length ?g.
      (?P ! n = NaN \<longleftrightarrow> (\<forall>k\<le>n. close (?g ! k) = NaN)) \<and>
      (close (?g ! n) \<noteq> NaN \<longrightarrow> ?P ! n = close (?g ! n))"
  proof (intro allI impI conjI)
    fix n assume n: "n < length ?g"
    then have "?P ! n = NaN \<longleftrightarrow> (\<forall>k\<le>n. map close ?g ! k = NaN)"
      by (simp add: pad_from_nth_NaN)
    also have "\<dots> \<longleftrightarrow> (\<forall>k\<le>n. close (?g ! k) = NaN)"
      using n by auto
    finally show "?P ! n = NaN \<longleftrightarrow> (\<forall>k\<le>n. close (?g ! k) = NaN)" .
    assume "close (?g ! n) \<noteq> NaN"
    with n show "?P ! n = close (?g ! n)"
      by (simp add: pad_from_nth_present)
  qed
  have numbers: "(\<forall>r\<in>set ?g. is_num (openp r) \<and> is_num (close r)) \<longrightarrow>
      (?c ! 0 = NaN \<longleftrightarrow>
         length ?g \<le> ?j + 1 \<or> openp (?g ! (?j + 1)) = Fin 0 \<and> close (?g ! ?j) = Fin 0) \<and>
      (?c ! 1 = NaN \<longleftrightarrow>
         length ?g \<le> ?j + 1 \<or> close (?g ! ?j) = Fin 0 \<and> close (?g ! (?j + 1)) = Fin 0) \<and>
      (?c ! 2 = NaN \<longleftrightarrow>
         length ?g \<le> ?j + 5 \<or> close (?g ! ?j) = Fin 0 \<and> close (?g ! (?j + 5)) = Fin 0)"
    using outcome_cells_numbers [OF j] by blast
  have nonzero: "(\<forall>r\<in>set ?g. is_num (openp r) \<and> is_num (close r) \<and> close r \<noteq> Fin 0) \<longrightarrow>
      (?c ! 0 = NaN \<longleftrightarrow> length ?g \<le> ?j + 1) \<and>
      (?c ! 1 = NaN \<longleftrightarrow> length ?g \<le> ?j + 1) \<and>
      (?c ! 2 = NaN \<longleftrightarrow> length ?g \<le> ?j + 5)"
  proof
    assume nz: "\<forall>r\<in>set ?g. is_num (openp r) \<and> is_num (close r) \<and> close r \<noteq> Fin 0"
    then have num: "\<forall>r\<in>set ?g. is_num (openp r) \<and> is_num (close r)" by simp
    from nz nth_mem [OF j] have "close (?g ! ?j) \<noteq> Fin 0" by blast
    with outcome_cells_numbers [OF j num]
    show "(?c ! 0 = NaN \<longleftrightarrow> length ?g \<le> ?j + 1) \<and>
          (?c ! 1 = NaN \<longleftrightarrow> length ?g \<le> ?j + 1) \<and>
          (?c ! 2 = NaN \<longleftrightarrow> length ?g \<le> ?j + 5)"
      by simp
  qed
  show ?thesis
    unfolding Let_def row fst_conv snd_conv
    using len j here general pad numbers nonzero by blast
qed

theorem outcomes_missing_exactly_witness:
  "Suc 0 < length two_days \<and> length (rows (outcomes two_days)) = 2 \<and>
   list_all (\<lambda>r. is_num (openp r) \<and> is_num (close r) \<and> close r \<noteq> Fin 0) two_days \<and>
   snd (rows (outcomes two_days) ! 0) ! 0 \<noteq> NaN \<and>
   snd (rows (outcomes two_days) ! Suc 0) ! 0 = NaN \<and>
   Suc 0 < length gap_prices \<and> pos gap_prices (Suc 0) = Suc 0 \<and>
   close (gap_prices ! Suc 0) = NaN \<and>
   snd (rows (outcomes gap_prices) ! Suc 0) ! 0 = NaN \<and>
   snd (rows (outcomes gap_prices) ! Suc 0) ! Suc 0 \<noteq> NaN"
proof -
  have len: "length two_days = 2" by code_simp
  have g: "grp (symbol (two_days ! 0)) two_days = two_days"
    "grp (symbol (two_days ! Suc 0)) two_days = two_days" by code_simp+
  have p0: "pos two_days 0 = 0" and p1: "pos two_days (Suc 0) = Suc 0" by code_simp+
  have nz: "\<forall>r\<in>set two_days. is_num (openp r) \<and> is_num (close r) \<and> close r \<noteq> Fin 0"
    by code_simp
  have i0: "0 < length two_days" and i1: "Suc 0 < length two_days" by (simp_all add: len)
  from outcomes_missing_exactly [OF i0, unfolded Let_def g p0] nz
  have a: "snd (rows (outcomes two_days) ! 0) ! 0 = NaN \<longleftrightarrow> length two_days \<le> 0 + 1"
    by blast
  from outcomes_missing_exactly [OF i1, unfolded Let_def g p1] nz
  have b: "snd (rows (outcomes two_days) ! Suc 0) ! 0 = NaN \<longleftrightarrow> length two_days \<le> Suc 0 + 1"
    by blast
  from outcomes_missing_exactly [OF i1] have n: "length (rows (outcomes two_days)) = 2"
    by (simp add: len)
  have len': "length gap_prices = 3" by code_simp
  have g': "grp (symbol (gap_prices ! Suc 0)) gap_prices = gap_prices" by code_simp
  have p': "pos gap_prices (Suc 0) = Suc 0" by code_simp
  have i': "Suc 0 < length gap_prices" by (simp add: len')
  have c: "close (gap_prices ! Suc 0) = NaN" by code_simp
  have u0: "undefined_ratio (openp (gap_prices ! (Suc 0 + 1))) (close (gap_prices ! Suc 0))"
    by code_simp
  have u1: "\<not> undefined_ratio (pad_from NaN (map close gap_prices) ! Suc 0)
                (pad_from NaN (map close gap_prices) ! (Suc 0 + 1))"
    by code_simp
  note f = outcomes_missing_exactly [OF i', unfolded Let_def g' p']
  from f u0 have d: "snd (rows (outcomes gap_prices) ! Suc 0) ! 0 = NaN"
    by blast
  from f u1 have "snd (rows (outcomes gap_prices) ! Suc 0) ! 1 = NaN \<longleftrightarrow>
      length gap_prices \<le> Suc 0 + 1"
    by blast
  then have e: "snd (rows (outcomes gap_prices) ! Suc 0) ! Suc 0 \<noteq> NaN"
    by (simp add: len')
  from nz have l: "list_all (\<lambda>r. is_num (openp r) \<and> is_num (close r) \<and> close r \<noteq> Fin 0) two_days"
    by (simp only: list_all_iff)
  from a b have "snd (rows (outcomes two_days) ! 0) ! 0 \<noteq> NaN"
    and "snd (rows (outcomes two_days) ! Suc 0) ! 0 = NaN"
    by (simp_all add: len)
  with i1 n l i' p' c d e show ?thesis by blast
qed

text \<open>
  C10, as the spec states it: a features row survives exactly when its symbol has five
  earlier price rows. Below, the sixth row of the symbol has five earlier rows, yet its
  \<open>volume_change_ratio\<close> is zero over zero (no volume on the last two days) and
  \<open>dropna\<close> removes it.
\<close>

theorem survives_iff_five_earlier_counterexample:
  "length thin_prices = 6 \<and> pos thin_prices 5 = 5 \<and>
   rows (features_all thin_prices) ! 5 =
     (((2016, 12, 8), ''AAPL''), [NaN, Fin (3 / 101), Fin 0, Fin 3, Fin 8]) \<and>
   rows (features thin_prices) = []"
  by code_simp

lemma survives_numbers:
  assumes i: "i < length prices"
    and num: "\<forall>r\<in>set prices. is_num (volume r) \<and> is_num (openp r) \<and> is_num (close r)"
  shows "survives prices i \<longleftrightarrow>
         (let g = grp (symbol (prices ! i)) prices; j = pos prices i
          in 5 \<le> j \<and>
             \<not> (volume (g ! j) = Fin 0 \<and> volume (g ! (j - 1)) = Fin 0) \<and>
             \<not> (close (g ! j) = Fin 0 \<and> close (g ! (j - 5)) = Fin 0) \<and>
             \<not> (close (g ! j) = Fin 0 \<and> openp (g ! j) = Fin 0))"
proof -
  let ?g = "grp (symbol (prices ! i)) prices"
  let ?j = "pos prices i"
  have j: "?j < length ?g" by (rule pos_in_group(1) [OF i])
  have sub: "set ?g \<subseteq> set prices" by (auto simp: grp_def)
  with num have numg: "\<forall>r\<in>set ?g. is_num (volume r) \<and> is_num (openp r) \<and> is_num (close r)"
    by blast
  then have "\<forall>r\<in>set ?g. is_num (close r)" by simp
  then have "NaN \<notin> set (map close ?g)" by (rule numbers_present)
  then have P: "pad_from NaN (map close ?g) = map close ?g" by (rule pad_from_present)
  have n: "is_num (volume (?g ! n))" "is_num (openp (?g ! n))" "is_num (close (?g ! n))"
    if "n < length ?g" for n
    using numg nth_mem [OF that] by simp_all
  from j have j1: "?j - 1 < length ?g" and j5: "?j - 5 < length ?g" by simp_all
  from n [OF j] n(1) [OF j1] n(3) [OF j5] j j5 show ?thesis
    by (simp add: survives_def Let_def P undefined_ratio_numbers undefined_change_numbers)
qed

text \<open>
  C10, amended. The features frame consists of the rows of the price rows that survive,
  in order. In the unfiltered frame \<open>momentum_5_day\<close> is missing in the first five rows
  of each symbol and \<open>volume_change_ratio\<close> in the first, so none of these rows
  survives. A row survives exactly when its symbol has at least five earlier price rows
  and none of the three ratios is undefined, that is has a missing cell, is zero over
  zero or is infinite over infinite: the change of the volume over the previous volume,
  the padded close over the padded close five rows earlier, and the close less the open
  over the open. When every volume, open and close is a number, a row survives exactly
  when its symbol has at least five earlier price rows and none of the three ratios is
  zero over zero (volume and previous volume, close and the close five rows earlier,
  close and open); when moreover no close and no volume is zero, exactly when the symbol
  has at least five earlier rows. With one price row per key, a key appears in the
  features frame exactly when its row survives.
\<close>

theorem features_survivors:
  "rows (features prices) =
     map (\<lambda>i. (key (prices ! i),
                feature_cells (grp (symbol (prices ! i)) prices) (pos prices i)))
       (filter (survives prices) [0..<length prices]) \<and>
   (\<forall>i<length prices.
      (pos prices i < 5 \<longrightarrow>
         snd (rows (features_all prices) ! i) ! 1 = NaN \<and> \<not> survives prices i) \<and>
      (pos prices i = 0 \<longrightarrow> snd (rows (features_all prices) ! i) ! 0 = NaN)) \<and>
   ((\<forall>r\<in>set prices. is_num (volume r) \<and> is_num (openp r) \<and> is_num (close r)) \<longrightarrow>
      (\<forall>i<length prices.
         survives prices i \<longleftrightarrow>
           (let g = grp (symbol (prices ! i)) prices; j = pos prices i
            in 5 \<le> j \<and>
               \<not> (volume (g ! j) = Fin 0 \<and> volume (g ! (j - 1)) = Fin 0) \<and>
               \<not> (close (g ! j) = Fin 0 \<and> close (g ! (j - 5)) = Fin 0) \<and>
               \<not> (close (g ! j) = Fin 0 \<and> openp (g ! j) = Fin 0)))) \<and>
   ((\<forall>r\<in>set prices. is_num (volume r) \<and> is_num (openp r) \<and> is_num (close r) \<and>
                     volume r \<noteq> Fin 0 \<and> close r \<noteq> Fin 0) \<longrightarrow>
      (\<forall>i<length prices. survives prices i \<longleftrightarrow> 5 \<le> pos prices i)) \<and>
   (distinct (map key prices) \<longrightarrow>
      (\<forall>i<length prices.
         key (prices ! i) \<in> fst ` set (rows (features prices)) \<longleftrightarrow> survives prices i))"
proof (intro conjI allI impI)
  show "rows (features prices) =
     map (\<lambda>i. (key (prices ! i),
                feature_cells (grp (symbol (prices ! i)) prices) (pos prices i)))
       (filter (survives prices) [0..<length prices])"
    by (rule features_rows)
next
  fix i assume i: "i < length prices" and early: "pos prices i < 5"
  from i pos_in_group(1) [OF i] early
  show "snd (rows (features_all prices) ! i) ! 1 = NaN"
    by (simp add: features_all_rows feature_cells_explicit)
  from early show "\<not> survives prices i"
    by (simp add: survives_def Let_def)
next
  fix i assume i: "i < length prices" and first: "pos prices i = 0"
  from i pos_in_group(1) [OF i] first
  show "snd (rows (features_all prices) ! i) ! 0 = NaN"
    by (simp add: features_all_rows feature_cells_explicit)
next
  fix i
  assume "\<forall>r\<in>set prices. is_num (volume r) \<and> is_num (openp r) \<and> is_num (close r)"
    and "i < length prices"
  then show "survives prices i \<longleftrightarrow>
           (let g = grp (symbol (prices ! i)) prices; j = pos prices i
            in 5 \<le> j \<and>
               \<not> (volume (g ! j) = Fin 0 \<and> volume (g ! (j - 1)) = Fin 0) \<and>
               \<not> (close (g ! j) = Fin 0 \<and> close (g ! (j - 5)) = Fin 0) \<and>
               \<not> (close (g ! j) = Fin 0 \<and> openp (g ! j) = Fin 0))"
    by (rule survives_numbers [rotated])
next
  fix i
  assume nz: "\<forall>r\<in>set prices. is_num (volume r) \<and> is_num (openp r) \<and> is_num (close r) \<and>
                 volume r \<noteq> Fin 0 \<and> close r \<noteq> Fin 0"
    and i: "i < length prices"
  let ?g = "grp (symbol (prices ! i)) prices"
  from nz have num: "\<forall>r\<in>set prices. is_num (volume r) \<and> is_num (openp r) \<and> is_num (close r)"
    by simp
  have sub: "set ?g \<subseteq> set prices" by (auto simp: grp_def)
  have j: "pos prices i < length ?g" by (rule pos_in_group(1) [OF i])
  then have "?g ! pos prices i \<in> set prices" using sub by (meson nth_mem subsetD)
  with nz have "volume (?g ! pos prices i) \<noteq> Fin 0" "close (?g ! pos prices i) \<noteq> Fin 0"
    by auto
  then show "survives prices i \<longleftrightarrow> 5 \<le> pos prices i"
    by (simp add: survives_numbers [OF i num] Let_def)
next
  fix i
  assume d: "distinct (map key prices)" and i: "i < length prices"
  have same: "i' = i" if "i' < length prices" "key (prices ! i') = key (prices ! i)" for i'
    using that i d nth_eq_iff_index_eq [of "map key prices" i' i] by simp
  show "key (prices ! i) \<in> fst ` set (rows (features prices)) \<longleftrightarrow> survives prices i"
  proof
    assume "key (prices ! i) \<in> fst ` set (rows (features prices))"
    then obtain i' where "i' < length prices" "survives prices i'"
      "key (prices ! i') = key (prices ! i)"
      by (auto simp: features_rows)
    with same show "survives prices i" by blast
  next
    assume "survives prices i"
    with i show "key (prices ! i) \<in> fst ` set (rows (features prices))"
      by (force simp: features_rows image_iff)
  qed
qed

theorem features_survivors_witness:
  "list_all (\<lambda>r. is_num (volume r) \<and> is_num (openp r) \<and> is_num (close r) \<and>
                 volume r \<noteq> Fin 0 \<and> close r \<noteq> Fin 0) week_prices \<and>
   distinct (map key week_prices) \<and>
   10 < length week_prices \<and> pos week_prices 10 = 5 \<and>
   survives week_prices 10 \<and>
   key (week_prices ! 10) \<in> fst ` set (rows (features week_prices)) \<and>
   1 < length week_prices \<and> pos week_prices 1 = 0 \<and>
   snd (rows (features_all week_prices) ! 1) ! 0 = NaN \<and>
   \<not> survives week_prices 1"
proof -
  have nz: "\<forall>r\<in>set week_prices. is_num (volume r) \<and> is_num (openp r) \<and> is_num (close r) \<and>
               volume r \<noteq> Fin 0 \<and> close r \<noteq> Fin 0"
    by code_simp
  have d: "distinct (map key week_prices)" by code_simp
  have len: "10 < length week_prices" "1 < length week_prices" by code_simp+
  have p: "pos week_prices 10 = 5" "pos week_prices 1 = 0" by code_simp+
  note facts = features_survivors [of week_prices]
  from facts nz have "\<forall>i<length week_prices. survives week_prices i \<longleftrightarrow> 5 \<le> pos week_prices i"
    by blast
  with len(1) p(1) have s10: "survives week_prices 10"
    by simp
  from facts d have "\<forall>i<length week_prices.
      key (week_prices ! i) \<in> fst ` set (rows (features week_prices)) \<longleftrightarrow> survives week_prices i"
    by blast
  with len(1) s10 have k10: "key (week_prices ! 10) \<in> fst ` set (rows (features week_prices))"
    by blast
  from facts have early: "\<forall>i<length week_prices.
      (pos week_prices i < 5 \<longrightarrow>
         snd (rows (features_all week_prices) ! i) ! 1 = NaN \<and> \<not> survives week_prices i) \<and>
      (pos week_prices i = 0 \<longrightarrow> snd (rows (features_all week_prices) ! i) ! 0 = NaN)"
    by blast
  from early len(2) p(2) have first: "snd (rows (features_all week_prices) ! 1) ! 0 = NaN"
    by blast
  from early len(2) p(2) have s1: "\<not> survives week_prices 1"
    by (metis zero_less_numeral)
  from nz have "list_all (\<lambda>r. is_num (volume r) \<and> is_num (openp r) \<and> is_num (close r) \<and>
                 volume r \<noteq> Fin 0 \<and> close r \<noteq> Fin 0) week_prices"
    by (simp only: list_all_iff)
  with d len p s10 k10 first s1 show ?thesis
    by blast
qed

section \<open>Columns of the derived frames\<close>

lemma columns_features [simp]:
  "columns (features prices) =
     [''volume_change_ratio'', ''momentum_5_day'', ''intraday_chg'',
      ''day_of_week'', ''day_of_month'']"
  by (simp add: features_def dropna_def features_all_rows)

lemma columns_outcomes [simp]: "columns (outcomes prices) = [''open_1'', ''close_1'', ''close_5'']"
  by (simp add: outcomes_rows)

lemma name_column [simp]: "name (column c F) = c"
  by (simp add: column_def)

lemma prepare_returns:
  assumes "c \<in> set [''open_1'', ''close_1'', ''close_5'']"
  shows "\<exists>X y. prepare (Indexed prices) c = Inr (X, y)"
  using assms
  by (auto simp: prepare_def training_pair_def getcol_def getitem_def join_def getcols_def
        dropna_def Let_def)

section \<open>The join and the training pair\<close>

lemma dropna_join_row:
  "filter (\<lambda>(k, vs). NaN \<notin> set vs)
     (case ms of [] \<Rightarrow> [(k, vs @ [NaN])] | _ # _ \<Rightarrow> map (\<lambda>v. (k, vs @ [v])) ms) =
   filter (\<lambda>(k, vs). NaN \<notin> set vs) (map (\<lambda>v. (k, vs @ [v])) ms)"
  by (cases ms) simp_all

lemma dropna_left_join_rows:
  "filter (\<lambda>(k, vs). NaN \<notin> set vs)
     (concat (map (\<lambda>(k, vs). case matches k y of
                                [] \<Rightarrow> [(k, vs @ [NaN])]
                              | _ # _ \<Rightarrow> map (\<lambda>v. (k, vs @ [v])) (matches k y)) xs)) =
   filter (\<lambda>(k, vs). NaN \<notin> set vs)
     (concat (map (\<lambda>(k, vs). map (\<lambda>v. (k, vs @ [v])) (matches k y)) xs))"
proof (induction xs)
  case Nil
  show ?case by simp
next
  case (Cons x xs)
  obtain k vs where x: "x = (k, vs)" by (cases x)
  show ?case
    using Cons.IH dropna_join_row [where ms = "matches k y" and k = k and vs = vs] by (simp add: x)
qed

lemma dropna_join: "map_sum id dropna (join X y) = map_sum id dropna (inner_join X y)"
proof -
  have "(case matches k y of [] \<Rightarrow> [(k, vs @ [NaN])] | ms \<Rightarrow> map (\<lambda>v. (k, vs @ [v])) ms) =
        (case matches k y of [] \<Rightarrow> [(k, vs @ [NaN])]
         | _ # _ \<Rightarrow> map (\<lambda>v. (k, vs @ [v])) (matches k y))" for k vs
    by (cases "matches k y") simp_all
  then show ?thesis
    by (simp add: join_def inner_join_def dropna_def dropna_left_join_rows)
qed

text \<open>
  C3. The training pair as the notebook builds it (left join \<open>X.join(y)\<close>, \<open>dropna\<close>,
  split into \<open>X\<close> and \<open>y\<close>) equals, for every features frame, outcomes frame and
  outcome column, the pair built with an inner join on the key followed by \<open>dropna\<close>;
  already the joined and filtered frames are equal for every frame and series.
\<close>

theorem left_join_dropna_is_inner_join_dropna:
  "training_pair feats outs c = training_pair_spec feats outs c \<and>
   map_sum id dropna (join X y) = map_sum id dropna (inner_join X y)"
proof
  show "map_sum id dropna (join X y) = map_sum id dropna (inner_join X y)"
    by (rule dropna_join)
  show "training_pair feats outs c = training_pair_spec feats outs c"
  proof (cases "getcol c outs")
    case (Inl e)
    then show ?thesis by (simp add: training_pair_def training_pair_spec_def)
  next
    case (Inr y')
    from dropna_join [of feats y'] show ?thesis
      by (cases "join feats y'"; cases "inner_join feats y'")
         (simp_all add: training_pair_def training_pair_spec_def Inr Let_def)
  qed
qed

lemma index_of_nth:
  assumes "distinct cs" and "i < length cs"
  shows "index_of (cs ! i) cs = i"
proof -
  let ?P = "\<lambda>x. x \<noteq> cs ! i"
  let ?n = "length (takeWhile ?P cs)"
  have "\<And>j. j < i \<Longrightarrow> ?P (cs ! j)"
    using assms by (simp add: nth_eq_iff_index_eq)
  then have low: "i \<le> ?n"
    using assms(2) by (intro length_takeWhile_less_P_nth) simp_all
  have "\<not> i < ?n"
  proof
    assume lt: "i < ?n"
    then have "takeWhile ?P cs ! i = cs ! i" by (rule takeWhile_nth)
    moreover from lt have "takeWhile ?P cs ! i \<in> set (takeWhile ?P cs)" by simp
    ultimately have "cs ! i \<in> set (takeWhile ?P cs)" by simp
    then show False by (auto dest: set_takeWhileD)
  qed
  with low show ?thesis by (simp add: index_of_def)
qed

lemma index_of_append: "c \<in> set cs \<Longrightarrow> index_of c (cs @ ds) = index_of c cs"
  by (simp add: index_of_def takeWhile_append1)

lemma select_back:
  assumes "distinct cs" and "length vs = length cs"
  shows "map (\<lambda>c. (vs @ [v]) ! index_of c (cs @ [n])) cs = vs"
proof (rule nth_equalityI)
  show "length (map (\<lambda>c. (vs @ [v]) ! index_of c (cs @ [n])) cs) = length vs"
    using assms by simp
next
  fix i assume "i < length (map (\<lambda>c. (vs @ [v]) ! index_of c (cs @ [n])) cs)"
  then have i: "i < length cs" by simp
  then have "index_of (cs ! i) (cs @ [n]) = i"
    using assms(1) by (simp add: index_of_append index_of_nth)
  with i assms(2) show "map (\<lambda>c. (vs @ [v]) ! index_of c (cs @ [n])) cs ! i = vs ! i"
    by (simp add: nth_append)
qed

lemma join_rows_from:
  assumes "join F y = Inr J" and "r \<in> set (rows J)"
  shows "\<exists>k vs v. r = (k, vs @ [v]) \<and> (k, vs) \<in> set (rows F)"
proof -
  from assms(1) have J: "rows J = concat (map (\<lambda>(k, vs).
        case matches k y of [] \<Rightarrow> [(k, vs @ [NaN])]
        | ms \<Rightarrow> map (\<lambda>v. (k, vs @ [v])) ms) (rows F))"
    by (auto simp: join_def split: if_splits)
  from assms(2) obtain k vs where x: "(k, vs) \<in> set (rows F)"
    and r: "r \<in> set (case matches k y of [] \<Rightarrow> [(k, vs @ [NaN])]
                     | ms \<Rightarrow> map (\<lambda>v. (k, vs @ [v])) ms)"
    unfolding J by auto
  from r have "\<exists>v. r = (k, vs @ [v])"
    by (cases "matches k y") auto
  with x show ?thesis by blast
qed

lemma training_rows:
  assumes tp: "training_pair F outs c = Inr (X, y)"
    and d: "distinct (columns F)"
    and wf: "\<forall>r\<in>set (rows F). length (snd r) = length (columns F)"
  shows "columns X = columns F \<and> set (rows X) \<subseteq> set (rows F)"
proof -
  from tp obtain y0 J where y0: "getcol c outs = Inr y0" and J: "join F y0 = Inr J"
    and X: "getcols (columns F) (dropna J) = Inr X"
    by (auto simp: training_pair_def Let_def split: sum.splits)
  from J have cJ: "columns J = columns F @ [name y0]"
    by (auto simp: join_def split: if_splits)
  from X have cX: "columns X = columns F"
    and rX: "rows X = map (\<lambda>(k, vs). (k, map (\<lambda>c. vs ! index_of c (columns (dropna J))) (columns F)))
                       (rows (dropna J))"
    by (auto simp: getcols_def split: if_splits)
  have "x \<in> set (rows F)" if "x \<in> set (rows X)" for x
  proof -
    from that obtain r where r: "r \<in> set (rows (dropna J))"
      and x: "x = (fst r, map (\<lambda>c. snd r ! index_of c (columns (dropna J))) (columns F))"
      unfolding rX by (auto simp: case_prod_unfold)
    from r have "r \<in> set (rows J)" by (simp add: dropna_def)
    from join_rows_from [OF J this] obtain k vs v
      where rr: "r = (k, vs @ [v])" and kv: "(k, vs) \<in> set (rows F)" by blast
    from kv wf have "length vs = length (columns F)" by force
    from select_back [OF d this, of v "name y0"]
    have "x = (k, vs)" by (simp add: x rr dropna_def cJ)
    with kv show ?thesis by simp
  qed
  with cX show ?thesis by blast
qed

lemma features_well_formed:
  "distinct (columns (features prices)) \<and>
   (\<forall>r\<in>set (rows (features prices)). length (snd r) = length (columns (features prices)))"
  by (auto simp: features_rows feature_cells_def)

text \<open>
  C1. In a price table sorted by its index, the feature cells of a row (date \<open>d\<close>,
  symbol \<open>s\<close>) are computed from the price rows of \<open>s\<close> dated \<open>d\<close> or earlier: two sorted
  tables with the same such rows give the same feature rows under the key. The rows of
  the training matrix \<open>X\<close> are rows of the features frame, unchanged, so every retained
  row would come out the same from any price history with the same past.
\<close>

theorem features_lookahead_safe:
  assumes "sorted (map key prices)" and "sorted (map key prices')"
    and "past s d prices = past s d prices'"
  shows "rows_at (d, s) (features prices) = rows_at (d, s) (features prices') \<and>
         (\<forall>X y. training_pair (features prices) (outcomes prices) c = Inr (X, y) \<longrightarrow>
            columns X = columns (features prices) \<and>
            set (rows X) \<subseteq> set (rows (features prices)) \<and>
            (\<forall>vs. ((d, s), vs) \<in> set (rows X) \<longrightarrow>
                  ((d, s), vs) \<in> set (rows (features prices'))))"
proof (intro conjI allI impI)
  show same: "rows_at (d, s) (features prices) = rows_at (d, s) (features prices')"
    using assms by (simp add: features_at)
  fix X y
  assume tp: "training_pair (features prices) (outcomes prices) c = Inr (X, y)"
  from training_rows [OF tp] features_well_formed [of prices]
  have cols: "columns X = columns (features prices)"
    and sub: "set (rows X) \<subseteq> set (rows (features prices))"
    by blast+
  show "columns X = columns (features prices)" by (rule cols)
  show "set (rows X) \<subseteq> set (rows (features prices))" by (rule sub)
  fix vs assume "((d, s), vs) \<in> set (rows X)"
  with sub have "((d, s), vs) \<in> set (rows_at (d, s) (features prices))"
    by (auto simp: rows_at_def)
  then have "((d, s), vs) \<in> set (rows_at (d, s) (features prices'))"
    by (simp only: same)
  then show "((d, s), vs) \<in> set (rows (features prices'))"
    by (simp add: rows_at_def)
qed


theorem features_lookahead_safe_witness:
  "sorted (map key week_prices) \<and> sorted (map key week_prices_other_end) \<and>
   past ''AAPL'' (2016, 12, 8) week_prices = past ''AAPL'' (2016, 12, 8) week_prices_other_end \<and>
   after_date ''AAPL'' (2016, 12, 8) week_prices \<noteq>
     after_date ''AAPL'' (2016, 12, 8) week_prices_other_end \<and>
   rows_at ((2016, 12, 8), ''AAPL'') (features week_prices) =
     [(((2016, 12, 8), ''AAPL''),
       [Fin (- (2 / 7)), Fin (3 / 101), Fin (- (1 / 105)), Fin 3, Fin 8])] \<and>
   rows_at ((2016, 12, 8), ''AAPL'') (features week_prices) =
     rows_at ((2016, 12, 8), ''AAPL'') (features week_prices_other_end)"
proof -
  have s1: "sorted (map key week_prices)" by code_simp
  have s2: "sorted (map key week_prices_other_end)" by code_simp
  have eq: "past ''AAPL'' (2016, 12, 8) week_prices =
            past ''AAPL'' (2016, 12, 8) week_prices_other_end"
    by code_simp
  have ne: "after_date ''AAPL'' (2016, 12, 8) week_prices \<noteq>
            after_date ''AAPL'' (2016, 12, 8) week_prices_other_end"
    by code_simp
  have v: "rows_at ((2016, 12, 8), ''AAPL'') (features week_prices) =
     [(((2016, 12, 8), ''AAPL''),
       [Fin (- (2 / 7)), Fin (3 / 101), Fin (- (1 / 105)), Fin 3, Fin 8])]"
    by code_simp
  from features_lookahead_safe [OF s1 s2 eq] s1 s2 eq ne v show ?thesis
    by blast
qed

theorem left_join_dropna_is_inner_join_dropna_witness:
  "training_pair (features week_prices) (outcomes week_prices) ''close_1'' =
     training_pair_spec (features week_prices) (outcomes week_prices) ''close_1'' \<and>
   map_sum id (\<lambda>Xy. (map fst (rows (fst Xy)), map fst (items (snd Xy))))
     (training_pair (features week_prices) (outcomes week_prices) ''close_1'') =
     Inr ([((2016, 12, 8), ''AAPL''), ((2016, 12, 8), ''CSCO'')],
          [((2016, 12, 8), ''AAPL''), ((2016, 12, 8), ''CSCO'')])"
proof -
  have v: "map_sum id (\<lambda>Xy. (map fst (rows (fst Xy)), map fst (items (snd Xy))))
     (training_pair (features week_prices) (outcomes week_prices) ''close_1'') =
     Inr ([((2016, 12, 8), ''AAPL''), ((2016, 12, 8), ''CSCO'')],
          [((2016, 12, 8), ''AAPL''), ((2016, 12, 8), ''CSCO'')])"
    by code_simp
  from left_join_dropna_is_inner_join_dropna
         [of "features week_prices" "outcomes week_prices" "''close_1''"] v
  show ?thesis by blast
qed


section \<open>Omission instead of errors\<close>

lemma index_of_fresh: "c \<notin> set cs \<Longrightarrow> index_of c (cs @ [c]) = length cs"
  by (induction cs) (auto simp: index_of_def)

lemma training_target:
  assumes tp: "training_pair F outs c = Inr (X, y)"
    and wf: "\<forall>r\<in>set (rows F). length (snd r) = length (columns F)"
  shows "\<forall>v\<in>set (items y). snd v \<noteq> NaN" and "map fst (items y) = map fst (rows X)"
proof -
  from tp obtain y0 J where y0: "getcol c outs = Inr y0" and J: "join F y0 = Inr J"
    and y: "getitem (name y0) (dropna J) = Inr y"
    and X: "getcols (columns F) (dropna J) = Inr X"
    by (auto simp: training_pair_def Let_def split: sum.splits)
  from J have fresh: "name y0 \<notin> set (columns F)"
    and cJ: "columns J = columns F @ [name y0]"
    by (auto simp: join_def split: if_splits)
  from y have iy: "items y =
      map (\<lambda>(k, vs). (k, vs ! index_of (name y0) (columns (dropna J)))) (rows (dropna J))"
    by (auto simp: getitem_def column_def split: if_splits)
  from X have rX: "rows X =
      map (\<lambda>(k, vs). (k, map (\<lambda>c. vs ! index_of c (columns (dropna J))) (columns F)))
        (rows (dropna J))"
    by (auto simp: getcols_def split: if_splits)
  show "map fst (items y) = map fst (rows X)"
    by (simp add: iy rX case_prod_unfold o_def)
  have ix: "index_of (name y0) (columns (dropna J)) = length (columns F)"
    using fresh by (simp add: dropna_def cJ index_of_fresh)
  show "\<forall>v\<in>set (items y). snd v \<noteq> NaN"
  proof
    fix v assume "v \<in> set (items y)"
    then obtain r where r: "r \<in> set (rows (dropna J))"
      and v: "v = (fst r, snd r ! length (columns F))"
      unfolding iy ix by (auto simp: case_prod_unfold)
    from r have rJ: "r \<in> set (rows J)" and clean: "NaN \<notin> set (snd r)"
      by (auto simp: dropna_def)
    from join_rows_from [OF J rJ] obtain k vs x
      where rr: "r = (k, vs @ [x])" and kv: "(k, vs) \<in> set (rows F)" by blast
    from kv wf have "length vs = length (columns F)" by force
    with nth_append_length [of vs x] have "(vs @ [x]) ! length (columns F) = x" by simp
    then have "snd v = x" by (simp add: v rr)
    with clean rr show "snd v \<noteq> NaN" by auto
  qed
qed

lemma not_is_num: "\<not> is_num v \<longleftrightarrow> v = NaN \<or> v = PInf \<or> v = NInf"
  by (cases v) simp_all

lemma check_X_y_cases:
  assumes "\<forall>r\<in>set (rows X). NaN \<notin> set (snd r)" and "\<forall>v\<in>set (items y). snd v \<noteq> NaN"
    and "map fst (items y) = map fst (rows X)"
  shows "check_X_y X y =
     (if rows X = [] \<or> (\<exists>r\<in>set (rows X). \<exists>v\<in>set (snd r). v = PInf \<or> v = NInf) \<or>
         (\<exists>v\<in>set (items y). snd v = PInf \<or> snd v = NInf)
      then Inl ValueError else Inr ())"
proof -
  from assms(3) have len: "length (rows X) = length (items y)"
    by (metis length_map)
  have x: "list_ex (\<lambda>r. list_ex (\<lambda>v. \<not> is_num v) (snd r)) (rows X) \<longleftrightarrow>
           (\<exists>r\<in>set (rows X). \<exists>v\<in>set (snd r). v = PInf \<or> v = NInf)"
    using assms(1) by (auto simp: list_ex_iff not_is_num)
  have y: "list_ex (\<lambda>v. \<not> is_num (snd v)) (items y) \<longleftrightarrow>
           (\<exists>v\<in>set (items y). snd v = PInf \<or> snd v = NInf)"
    using assms(2) by (auto simp: list_ex_iff not_is_num)
  show ?thesis
    by (simp add: check_X_y_def x y len)
qed

lemma short_history:
  assumes "\<forall>i<length prices. pos prices i < 5"
  shows "rows (features prices) = []"
proof -
  have "\<not> survives prices i" if "i \<in> set [0..<length prices]" for i
  proof -
    from that have "i < length prices" by simp
    with assms have "pos prices i < 5" by blast
    then show ?thesis by (simp add: survives_def Let_def)
  qed
  then have "filter (survives prices) [0..<length prices] = []"
    by (simp add: filter_empty_conv)
  then show ?thesis by (simp add: features_rows)
qed

text \<open>
  C6, as the spec states it: no step of the pipeline raises for data that is missing
  because the history is too short. The fit step does: a symbol with a single price row
  has no features row, the training pair is empty, and the validation at the start of
  \<open>model.fit(X, y)\<close> raises \<open>ValueError\<close> on it.
\<close>

theorem fit_raises_on_short_history_counterexample:
  "rows (features_all one_day) =
     [(((2016, 12, 1), ''AAPL''), [NaN, NaN, Fin (1 / 100), Fin 3, Fin 1])] \<and>
   rows (features one_day) = [] \<and>
   rows (outcomes one_day) = [(((2016, 12, 1), ''AAPL''), [NaN, NaN, NaN])] \<and>
   prepare (Indexed one_day) ''close_1'' =
     Inr (\<lparr>columns = [''volume_change_ratio'', ''momentum_5_day'', ''intraday_chg'',
                      ''day_of_week'', ''day_of_month''], rows = []\<rparr>,
          \<lparr>name = ''close_1'', items = []\<rparr>) \<and>
   fit_cell (Indexed one_day) ''close_1'' = Inl ValueError"
  by code_simp

text \<open>
  C6, amended. The features frame is the unfiltered frame without the rows that have a
  missing cell: a row of the unfiltered frame is kept exactly when none of its cells is
  missing, and every row of the features frame has its five cells, none missing. On an
  indexed price table of any length, also an empty one or one too short for any feature
  or outcome, the features cell, the outcomes cell and the training-pair cell return:
  the training pair \<open>X\<close>, \<open>y\<close> exists, the rows of \<open>X\<close> are rows of the features frame,
  no cell of \<open>y\<close> is missing, and \<open>X\<close> and \<open>y\<close> carry the same keys in the same order.
  The fit step is the exception: its validation raises \<open>ValueError\<close> exactly when
  omission has left no row in \<open>X\<close> or a cell of \<open>X\<close> or \<open>y\<close> is infinite, and passes
  otherwise; \<open>X\<close> has no row when no symbol has more than five price rows.
\<close>

theorem missing_rows_are_omitted:
  assumes "c \<in> set [''open_1'', ''close_1'', ''close_5'']"
  shows "features prices = dropna (features_all prices) \<and>
   length (rows (features_all prices)) = length prices \<and>
   (\<forall>r\<in>set (rows (features_all prices)).
      r \<in> set (rows (features prices)) \<longleftrightarrow> NaN \<notin> set (snd r)) \<and>
   (\<forall>r\<in>set (rows (features prices)). length (snd r) = 5 \<and> NaN \<notin> set (snd r)) \<and>
   (\<exists>X y. prepare (Indexed prices) c = Inr (X, y) \<and>
      set (rows X) \<subseteq> set (rows (features prices)) \<and>
      (\<forall>v\<in>set (items y). snd v \<noteq> NaN) \<and>
      map fst (items y) = map fst (rows X) \<and>
      fit_cell (Indexed prices) c =
        (if rows X = [] \<or> (\<exists>r\<in>set (rows X). \<exists>v\<in>set (snd r). v = PInf \<or> v = NInf) \<or>
            (\<exists>v\<in>set (items y). snd v = PInf \<or> snd v = NInf)
         then Inl ValueError else Inr ()) \<and>
      ((\<forall>i<length prices. pos prices i < 5) \<longrightarrow> rows X = []))"
proof (intro conjI ballI)
  show "features prices = dropna (features_all prices)"
    by (simp add: features_def)
  show "length (rows (features_all prices)) = length prices"
    by (simp add: features_all_rows)
next
  fix r assume "r \<in> set (rows (features_all prices))"
  then show "r \<in> set (rows (features prices)) \<longleftrightarrow> NaN \<notin> set (snd r)"
    by (auto simp: features_def dropna_def)
next
  fix r assume "r \<in> set (rows (features prices))"
  then show "length (snd r) = 5"
    by (auto simp: features_rows feature_cells_def)
next
  fix r assume "r \<in> set (rows (features prices))"
  then show "NaN \<notin> set (snd r)"
    by (auto simp: features_def dropna_def)
next
  from prepare_returns [OF assms] obtain X y
    where p: "prepare (Indexed prices) c = Inr (X, y)" by blast
  then have tp: "training_pair (features prices) (outcomes prices) c = Inr (X, y)"
    by (simp add: prepare_def)
  note wf = features_well_formed [of prices]
  from training_rows [OF tp] wf have sub: "set (rows X) \<subseteq> set (rows (features prices))"
    by blast
  from wf have wf2: "\<forall>r\<in>set (rows (features prices)).
      length (snd r) = length (columns (features prices))"
    by blast
  note target = training_target [OF tp wf2]
  have clean: "\<forall>r\<in>set (rows X). NaN \<notin> set (snd r)"
    using sub by (auto simp: features_def dropna_def)
  have fit: "fit_cell (Indexed prices) c =
      (if rows X = [] \<or> (\<exists>r\<in>set (rows X). \<exists>v\<in>set (snd r). v = PInf \<or> v = NInf) \<or>
          (\<exists>v\<in>set (items y). snd v = PInf \<or> snd v = NInf)
       then Inl ValueError else Inr ())"
    using check_X_y_cases [OF clean target] by (simp add: fit_cell_def p)
  have short: "(\<forall>i<length prices. pos prices i < 5) \<longrightarrow> rows X = []"
  proof
    assume "\<forall>i<length prices. pos prices i < 5"
    then have "rows (features prices) = []" by (rule short_history)
    with sub show "rows X = []" by simp
  qed
  from p sub target fit short
  show "\<exists>X y. prepare (Indexed prices) c = Inr (X, y) \<and>
      set (rows X) \<subseteq> set (rows (features prices)) \<and>
      (\<forall>v\<in>set (items y). snd v \<noteq> NaN) \<and>
      map fst (items y) = map fst (rows X) \<and>
      fit_cell (Indexed prices) c =
        (if rows X = [] \<or> (\<exists>r\<in>set (rows X). \<exists>v\<in>set (snd r). v = PInf \<or> v = NInf) \<or>
            (\<exists>v\<in>set (items y). snd v = PInf \<or> snd v = NInf)
         then Inl ValueError else Inr ()) \<and>
      ((\<forall>i<length prices. pos prices i < 5) \<longrightarrow> rows X = [])"
    by blast
qed

theorem missing_rows_are_omitted_witness:
  "''close_1'' \<in> set [''open_1'', ''close_1'', ''close_5''] \<and>
   fit_cell (Indexed seven_days) ''close_1'' = Inr () \<and>
   (\<exists>X y. prepare (Indexed seven_days) ''close_1'' = Inr (X, y) \<and>
      rows X \<noteq> [] \<and> set (rows X) \<subseteq> set (rows (features seven_days)) \<and>
      map fst (items y) = map fst (rows X)) \<and>
   list_all (\<lambda>i. pos five_days i < 5) [0..<length five_days] \<and>
   (\<exists>X y. prepare (Indexed five_days) ''close_5'' = Inr (X, y) \<and> rows X = []) \<and>
   fit_cell (Indexed five_days) ''close_5'' = Inl ValueError"
proof -
  have c1: "''close_1'' \<in> set [''open_1'', ''close_1'', ''close_5'']" by simp
  have c5: "''close_5'' \<in> set [''open_1'', ''close_1'', ''close_5'']" by simp
  have v: "fit_cell (Indexed seven_days) ''close_1'' = Inr ()" by code_simp
  have short': "list_all (\<lambda>i. pos five_days i < 5) [0..<length five_days]"
    by code_simp
  then have short: "\<forall>i<length five_days. pos five_days i < 5"
    by (simp add: list_all_iff)
  from missing_rows_are_omitted [OF c1, of seven_days] obtain X y
    where p: "prepare (Indexed seven_days) ''close_1'' = Inr (X, y)"
      and sub: "set (rows X) \<subseteq> set (rows (features seven_days))"
      and a: "map fst (items y) = map fst (rows X)"
      and fit: "fit_cell (Indexed seven_days) ''close_1'' =
        (if rows X = [] \<or> (\<exists>r\<in>set (rows X). \<exists>v\<in>set (snd r). v = PInf \<or> v = NInf) \<or>
            (\<exists>v\<in>set (items y). snd v = PInf \<or> snd v = NInf)
         then Inl ValueError else Inr ())"
    by blast
  from fit v have ne: "rows X \<noteq> []"
    by (auto split: if_splits)
  have w: "\<exists>X y. prepare (Indexed seven_days) ''close_1'' = Inr (X, y) \<and>
      rows X \<noteq> [] \<and> set (rows X) \<subseteq> set (rows (features seven_days)) \<and>
      map fst (items y) = map fst (rows X)"
    using p ne sub a by (intro exI conjI)
  from missing_rows_are_omitted [OF c5, of five_days] short obtain X' y'
    where p': "prepare (Indexed five_days) ''close_5'' = Inr (X', y')"
      and e': "rows X' = []"
      and fit': "fit_cell (Indexed five_days) ''close_5'' =
        (if rows X' = [] \<or> (\<exists>r\<in>set (rows X'). \<exists>v\<in>set (snd r). v = PInf \<or> v = NInf) \<or>
            (\<exists>v\<in>set (items y'). snd v = PInf \<or> snd v = NInf)
         then Inl ValueError else Inr ())"
    by blast
  from fit' e' have r: "fit_cell (Indexed five_days) ''close_5'' = Inl ValueError"
    by simp
  have e: "\<exists>X y. prepare (Indexed five_days) ''close_5'' = Inr (X, y) \<and> rows X = []"
    using p' e' by (intro exI conjI)
  from c1 v w short' e r show ?thesis by blast
qed

section \<open>get\_symbols\<close>

lemma concat_frames_rows:
  "concat_frames out df = Indexed (frame_rows out @ df)"
  by (cases out) simp_all

lemma get_symbols_loop_cases:
  "case get_symbols_loop reader src b e out syms of
     Inl err \<Rightarrow> \<exists>s\<in>set syms. reader s src b e = Inl err
   | Inr out' \<Rightarrow>
       (\<forall>s\<in>set syms. \<exists>df. reader s src b e = Inr df) \<and>
       out' = (if syms = [] then out
               else Indexed (frame_rows out @ concat (map (fetched reader src b e) syms)))"
proof (induction syms arbitrary: out)
  case Nil
  show ?case by simp
next
  case (Cons s syms)
  show ?case
  proof (cases "reader s src b e")
    case (Inl err)
    then show ?thesis by simp
  next
    case (Inr df)
    let ?out = "concat_frames out (map (adjusted s) df)"
    have f: "fetched reader src b e s = map (adjusted s) df"
      by (simp add: fetched_def Inr)
    from Cons.IH [of ?out] show ?thesis
      by (cases "get_symbols_loop reader src b e ?out syms")
         (auto simp: Inr f concat_frames_rows)
  qed
qed

lemma fetched_symbol: "r \<in> set (fetched reader src b e s) \<Longrightarrow> symbol r = s"
  by (auto simp: fetched_def adjusted_def split: sum.splits)

text \<open>
  C5. When a read fails, \<open>get_symbols\<close> fails with that read's error. Otherwise every
  read succeeded and the result is one frame: its rows are the concatenation, over the
  symbol list in order, of the rows fetched for each symbol (date and adjusted
  open, high, low, close, volume, tagged with the symbol), sorted by the (date, symbol)
  key. The result is sorted, holds exactly the fetched rows with their multiplicities,
  and every row carries the symbol it was fetched for. For an empty symbol list the
  result is the empty frame without index.
\<close>

theorem get_symbols_table:
  "(case get_symbols reader symbols data_source begin_date end_date of
      Inl err \<Rightarrow> \<exists>s\<in>set symbols. reader s data_source begin_date end_date = Inl err
    | Inr out \<Rightarrow>
        (\<forall>s\<in>set symbols. \<exists>df. reader s data_source begin_date end_date = Inr df) \<and>
        (out = Unindexed \<longleftrightarrow> symbols = []) \<and>
        frame_rows out =
          sort_key key (concat (map (fetched reader data_source begin_date end_date) symbols)) \<and>
        sorted (map key (frame_rows out)) \<and>
        mset (frame_rows out) =
          mset (concat (map (fetched reader data_source begin_date end_date) symbols)) \<and>
        (\<forall>r\<in>set (frame_rows out).
           symbol r \<in> set symbols \<and>
           r \<in> set (fetched reader data_source begin_date end_date (symbol r)))) \<and>
   ((\<forall>s\<in>set symbols. \<exists>df. reader s data_source begin_date end_date = Inr df) \<longrightarrow>
      (\<exists>out. get_symbols reader symbols data_source begin_date end_date = Inr out))"
proof -
  let ?loop = "get_symbols_loop reader data_source begin_date end_date Unindexed symbols"
  let ?all = "concat (map (fetched reader data_source begin_date end_date) symbols)"
  note loop = get_symbols_loop_cases
    [where reader = reader and src = data_source and b = begin_date and e = end_date
       and out = Unindexed and syms = symbols]
  show ?thesis
  proof (cases ?loop)
    case (Inl err)
    with loop have bad: "\<exists>s\<in>set symbols. reader s data_source begin_date end_date = Inl err"
      by simp
    then have "\<not> (\<forall>s\<in>set symbols. \<exists>df. reader s data_source begin_date end_date = Inr df)"
      by force
    with bad show ?thesis
      by (simp add: get_symbols_def Inl)
  next
    case (Inr out)
    with loop have ok: "\<forall>s\<in>set symbols. \<exists>df. reader s data_source begin_date end_date = Inr df"
      and out: "out = (if symbols = [] then Unindexed else Indexed ?all)"
      by simp_all
    have res: "get_symbols reader symbols data_source begin_date end_date = Inr (sort_index out)"
      by (simp add: get_symbols_def Inr)
    have rows: "frame_rows (sort_index out) = sort_key key ?all"
      by (simp add: out)
    have un: "sort_index out = Unindexed \<longleftrightarrow> symbols = []"
      by (simp add: out)
    have mem: "symbol r \<in> set symbols \<and>
               r \<in> set (fetched reader data_source begin_date end_date (symbol r))"
      if "r \<in> set (sort_key key ?all)" for r
    proof -
      from that obtain s where s: "s \<in> set symbols"
        and r: "r \<in> set (fetched reader data_source begin_date end_date s)"
        by auto
      from fetched_symbol [OF r] s r show ?thesis by simp
    qed
    show ?thesis
      using ok un mem by (simp add: res rows)
  qed
qed

theorem get_symbols_table_witness:
  "get_symbols sample_reader [''CSCO'', ''AAPL''] ''quandl''
     (Some ''2016-12-01'') (Some ''2016-12-02'') =
     Inr (Indexed [bar 1 ''AAPL'' 100 101 500, bar 1 ''CSCO'' 30 31 900,
                   bar 2 ''AAPL'' 101 103 600, bar 2 ''CSCO'' 31 30 800]) \<and>
   sorted (map key [bar 1 ''AAPL'' 100 101 500, bar 1 ''CSCO'' 30 31 900,
                    bar 2 ''AAPL'' 101 103 600, bar 2 ''CSCO'' 31 30 800]) \<and>
   (\<exists>df. sample_reader ''CSCO'' ''quandl'' (Some ''2016-12-01'') (Some ''2016-12-02'') = Inr df) \<and>
   (\<exists>df. sample_reader ''AAPL'' ''quandl'' (Some ''2016-12-01'') (Some ''2016-12-02'') = Inr df)"
proof -
  have v: "get_symbols sample_reader [''CSCO'', ''AAPL''] ''quandl''
     (Some ''2016-12-01'') (Some ''2016-12-02'') =
     Inr (Indexed [bar 1 ''AAPL'' 100 101 500, bar 1 ''CSCO'' 30 31 900,
                   bar 2 ''AAPL'' 101 103 600, bar 2 ''CSCO'' 31 30 800])"
    by code_simp
  from get_symbols_table [where reader = sample_reader and symbols = "[''CSCO'', ''AAPL'']"
         and data_source = "''quandl''" and begin_date = "Some ''2016-12-01''"
         and end_date = "Some ''2016-12-02''"]
  show ?thesis
    unfolding v by simp
qed

section \<open>Prediction\<close>

text \<open>
  C8. When the prediction cell yields a series, the series has the length of \<open>X\<close> and
  the keys of \<open>X\<close>, in the order of \<open>X\<close>, and holds the model's predictions. It yields a
  series whenever the model returns one prediction per row of \<open>X\<close>, which is what the
  regressor interface promises; otherwise the cell raises.
\<close>

theorem prediction_keeps_index:
  "(case predict_series predict X of
      Inl e \<Rightarrow>
        predict X = Inl e \<or>
        (\<exists>data. predict X = Inr data \<and> length data \<noteq> length (rows X))
    | Inr s \<Rightarrow>
        map fst s = map fst (rows X) \<and> length s = length (rows X) \<and>
        predict X = Inr (map snd s)) \<and>
   (\<forall>data. predict X = Inr data \<and> length data = length (rows X) \<longrightarrow>
      predict_series predict X = Inr (zip (map fst (rows X)) data))"
  by (cases "predict X") (auto simp: predict_series_def Series_def)

theorem prediction_keeps_index_witness:
  "first_cell_model (features week_prices) = Inr [Fin (- (2 / 7)), Fin (2 / 17), Fin (3 / 5), Fin (- (7 / 19))] \<and>
   predict_series first_cell_model (features week_prices) =
     Inr [(((2016, 12, 8), ''AAPL''), Fin (- (2 / 7))),
          (((2016, 12, 8), ''CSCO''), Fin (2 / 17)),
          (((2016, 12, 9), ''AAPL''), Fin (3 / 5)),
          (((2016, 12, 9), ''CSCO''), Fin (- (7 / 19)))] \<and>
   map fst (rows (features week_prices)) =
     [((2016, 12, 8), ''AAPL''), ((2016, 12, 8), ''CSCO''),
      ((2016, 12, 9), ''AAPL''), ((2016, 12, 9), ''CSCO'')]"
proof -
  have m: "first_cell_model (features week_prices) =
           Inr [Fin (- (2 / 7)), Fin (2 / 17), Fin (3 / 5), Fin (- (7 / 19))]"
    by code_simp
  have k: "map fst (rows (features week_prices)) =
     [((2016, 12, 8), ''AAPL''), ((2016, 12, 8), ''CSCO''),
      ((2016, 12, 9), ''AAPL''), ((2016, 12, 9), ''CSCO'')]"
    by code_simp
  have l: "length (rows (features week_prices)) = 4"
    using arg_cong [OF k, of length] by simp
  from prediction_keeps_index [where predict = first_cell_model and X = "features week_prices"] m l
  have "predict_series first_cell_model (features week_prices) =
        Inr (zip (map fst (rows (features week_prices)))
               [Fin (- (2 / 7)), Fin (2 / 17), Fin (3 / 5), Fin (- (7 / 19))])"
    by simp
  with m k show ?thesis by simp
qed


section \<open>What a cell writes\<close>

lemma exec_in_place:
  assumes "exec s nb = Inr nb'" and "\<not> allocates s"
  shows "vars nb' = vars nb \<and> limit nb' = limit nb \<and>
         (\<forall>a. vars nb (target s) \<noteq> Some a \<longrightarrow> heap nb' a = heap nb a)"
  using assms
  by (cases s) (auto split: option.splits obj.splits prices_frame.splits)

lemma run_in_place:
  assumes "\<forall>s\<in>set ss. \<not> allocates s \<and> target s = x"
  shows "vars (fst (run ss nb)) = vars nb \<and> limit (fst (run ss nb)) = limit nb \<and>
         (\<forall>a. vars nb x \<noteq> Some a \<longrightarrow> heap (fst (run ss nb)) a = heap nb a)"
  using assms
proof (induction ss arbitrary: nb)
  case Nil
  show ?case by simp
next
  case (Cons s ss)
  show ?case
  proof (cases "exec s nb")
    case (Inl e)
    then show ?thesis by simp
  next
    case (Inr nb1)
    from Cons.prems have s: "\<not> allocates s" "target s = x" by simp_all
    from exec_in_place [OF Inr s(1)] s(2)
    have one: "vars nb1 = vars nb" "limit nb1 = limit nb"
      "\<forall>a. vars nb x \<noteq> Some a \<longrightarrow> heap nb1 a = heap nb a"
      by simp_all
    from Cons.prems have "\<forall>s\<in>set ss. \<not> allocates s \<and> target s = x" by simp
    from Cons.IH [OF this, of nb1] one show ?thesis
      by (simp add: Inr)
  qed
qed

lemma run_fresh_frame:
  assumes wf: "\<forall>a\<in>dom (heap nb). a < limit nb"
    and ss: "\<forall>s\<in>set ss. \<not> allocates s \<and> target s = x"
  shows "(\<forall>a\<in>dom (heap nb). heap (fst (run (NewFrameOnIndex x y # ss) nb)) a = heap nb a) \<and>
         (\<forall>z. z \<noteq> x \<longrightarrow> vars (fst (run (NewFrameOnIndex x y # ss) nb)) z = vars nb z)"
proof (cases "exec (NewFrameOnIndex x y) nb")
  case (Inl e)
  then show ?thesis by (simp del: exec.simps)
next
  case (Inr nb1)
  then have v1: "vars nb1 = (vars nb)(x \<mapsto> limit nb)"
    and h1: "\<forall>a. a \<noteq> limit nb \<longrightarrow> heap nb1 a = heap nb a"
    by (auto split: option.splits obj.splits)
  from run_in_place [OF ss, of nb1]
  have r: "vars (fst (run ss nb1)) = vars nb1"
    "\<forall>a. vars nb1 x \<noteq> Some a \<longrightarrow> heap (fst (run ss nb1)) a = heap nb1 a"
    by simp_all
  have old: "heap (fst (run ss nb1)) a = heap nb a" if "a \<in> dom (heap nb)" for a
  proof -
    from that wf have "a \<noteq> limit nb" by auto
    with r(2) h1 show ?thesis by (simp add: v1)
  qed
  from old r(1) show ?thesis
    by (simp add: Inr v1 del: exec.simps)
qed


lemma exec_effect:
  assumes "\<not> allocates s" and "target s = x" and "reads_from y s"
    and "vars nb y = Some a" and "heap nb a = Some (PricesObj (Indexed prices))"
    and "vars nb x = Some b" and "heap nb b = Some (FrameObj F)"
  shows "exec s nb = Inr (nb\<lparr>heap := (heap nb)(b \<mapsto> FrameObj (effect prices s F))\<rparr>)"
  using assms by (cases s) simp_all

lemma run_effects:
  assumes "\<forall>s\<in>set ss. \<not> allocates s \<and> target s = x \<and> reads_from y s"
    and "vars nb y = Some a" and "heap nb a = Some (PricesObj (Indexed prices))"
    and "vars nb x = Some b" and "heap nb b = Some (FrameObj F)" and "a \<noteq> b"
  shows "run ss nb =
         (nb\<lparr>heap := (heap nb)(b \<mapsto> FrameObj (fold (effect prices) ss F))\<rparr>, None)"
  using assms
proof (induction ss arbitrary: nb F)
  case Nil
  from Nil.prems(5) have "(heap nb)(b \<mapsto> FrameObj F) = heap nb"
    by (rule fun_upd_idem)
  then show ?case by simp
next
  case (Cons s ss)
  let ?nb = "nb\<lparr>heap := (heap nb)(b \<mapsto> FrameObj (effect prices s F))\<rparr>"
  from Cons.prems have s: "\<not> allocates s" "target s = x" "reads_from y s"
    and rest: "\<forall>s\<in>set ss. \<not> allocates s \<and> target s = x \<and> reads_from y s"
    by simp_all
  have step: "exec s nb = Inr ?nb"
    using s Cons.prems(2-5) by (rule exec_effect)
  have ih: "run ss ?nb =
        (?nb\<lparr>heap := (heap ?nb)(b \<mapsto> FrameObj (fold (effect prices) ss (effect prices s F)))\<rparr>,
         None)"
    using rest Cons.prems(2,3,4,6) by (intro Cons.IH) simp_all
  have upd: "?nb\<lparr>heap := (heap ?nb)(b \<mapsto> FrameObj Z)\<rparr> =
             nb\<lparr>heap := (heap nb)(b \<mapsto> FrameObj Z)\<rparr>" for Z
    by simp
  have "run (s # ss) nb = run ss ?nb"
    by (simp add: step del: exec.simps)
  also note ih
  finally show ?case
    by (simp only: upd fold_Cons comp_apply)
qed

lemma run_new_frame:
  assumes wf: "\<forall>a\<in>dom (heap nb). a < limit nb"
    and p: "value_of nb y = Some (PricesObj (Indexed prices))"
    and ss: "\<forall>s\<in>set ss. \<not> allocates s \<and> target s = x \<and> reads_from y s"
    and xy: "x \<noteq> y"
  shows "snd (run (NewFrameOnIndex x y # ss) nb) = None \<and>
         value_of (fst (run (NewFrameOnIndex x y # ss) nb)) x =
           Some (FrameObj (fold (effect prices) ss (new_frame (map key prices)))) \<and>
         value_of (fst (run (NewFrameOnIndex x y # ss) nb)) y = Some (PricesObj (Indexed prices))"
proof -
  from p obtain a where a: "vars nb y = Some a"
    and ha: "heap nb a = Some (PricesObj (Indexed prices))"
    by (auto simp: value_of_def split: option.splits)
  from ha wf have ne: "a \<noteq> limit nb" by auto
  let ?F = "new_frame (map key prices)"
  let ?nb = "nb\<lparr>vars := (vars nb)(x \<mapsto> limit nb),
                heap := (heap nb)(limit nb \<mapsto> FrameObj ?F),
                limit := Suc (limit nb)\<rparr>"
  have first: "exec (NewFrameOnIndex x y) nb = Inr ?nb"
    by (simp add: a ha)
  have "run ss ?nb =
        (?nb\<lparr>heap := (heap ?nb)(limit nb \<mapsto> FrameObj (fold (effect prices) ss ?F))\<rparr>, None)"
    using ss xy a ha ne by (intro run_effects [where y = y and a = a and x = x]) simp_all
  then show ?thesis
    using xy ne a ha by (simp add: first value_of_def del: exec.simps)
qed

lemma run_features_program:
  assumes wf: "\<forall>a\<in>dom (heap nb). a < limit nb"
    and p: "value_of nb ''prices'' = Some (PricesObj (Indexed prices))"
  shows "snd (run features_program nb) = None \<and>
         value_of (fst (run features_program nb)) ''features'' = Some (FrameObj (features prices)) \<and>
         value_of (fst (run features_program nb)) ''prices'' = Some (PricesObj (Indexed prices))"
proof -
  have prog: "NewFrameOnIndex ''features'' ''prices'' # tl features_program = features_program"
    by (simp add: features_program_def)
  have ss: "\<forall>s\<in>set (tl features_program).
              \<not> allocates s \<and> target s = ''features'' \<and> reads_from ''prices'' s"
    by (simp add: features_program_def)
  have xy: "''features'' \<noteq> ''prices''" by simp
  have built: "fold (effect prices) (tl features_program) (new_frame (map key prices)) =
               features prices"
    by (simp add: features_program_def features_def features_all_def Let_def)
  from run_new_frame [OF wf p ss xy] show ?thesis
    by (simp only: prog built)
qed

lemma run_outcomes_program:
  assumes wf: "\<forall>a\<in>dom (heap nb). a < limit nb"
    and p: "value_of nb ''prices'' = Some (PricesObj (Indexed prices))"
  shows "snd (run outcomes_program nb) = None \<and>
         value_of (fst (run outcomes_program nb)) ''outcomes'' = Some (FrameObj (outcomes prices)) \<and>
         value_of (fst (run outcomes_program nb)) ''prices'' = Some (PricesObj (Indexed prices))"
proof -
  have prog: "NewFrameOnIndex ''outcomes'' ''prices'' # tl outcomes_program = outcomes_program"
    by (simp add: outcomes_program_def)
  have ss: "\<forall>s\<in>set (tl outcomes_program).
              \<not> allocates s \<and> target s = ''outcomes'' \<and> reads_from ''prices'' s"
    by (simp add: outcomes_program_def)
  have xy: "''outcomes'' \<noteq> ''prices''" by simp
  have built: "fold (effect prices) (tl outcomes_program) (new_frame (map key prices)) =
               outcomes prices"
    by (simp add: outcomes_program_def outcomes_def Let_def)
  from run_new_frame [OF wf p ss xy] show ?thesis
    by (simp only: prog built)
qed

text \<open>
  C7. In a notebook whose objects all lie below the next free address, running the
  features cell or the outcomes cell, to its end or to the statement that raises,
  leaves every object that existed before as it was, the prices table among them, and
  rebinds no variable but \<open>features\<close> (or \<open>outcomes\<close>): all writes go to a frame the
  cell has just created. When \<open>prices\<close> names an indexed price table, the cell ends
  without error and the variable names a frame that is a function of the price table
  alone, so nothing of an earlier features or outcomes frame is carried over.
\<close>

theorem derived_cells_leave_prices_unchanged:
  assumes "\<forall>a\<in>dom (heap nb). a < limit nb"
  shows "(\<forall>a\<in>dom (heap nb). heap (fst (run features_program nb)) a = heap nb a) \<and>
         (\<forall>a\<in>dom (heap nb). heap (fst (run outcomes_program nb)) a = heap nb a) \<and>
         (\<forall>x. x \<noteq> ''features'' \<longrightarrow> vars (fst (run features_program nb)) x = vars nb x) \<and>
         (\<forall>x. x \<noteq> ''outcomes'' \<longrightarrow> vars (fst (run outcomes_program nb)) x = vars nb x) \<and>
         (\<forall>prices. value_of nb ''prices'' = Some (PricesObj (Indexed prices)) \<longrightarrow>
            snd (run features_program nb) = None \<and>
            value_of (fst (run features_program nb)) ''features'' =
              Some (FrameObj (features prices)) \<and>
            value_of (fst (run features_program nb)) ''prices'' =
              Some (PricesObj (Indexed prices)) \<and>
            snd (run outcomes_program nb) = None \<and>
            value_of (fst (run outcomes_program nb)) ''outcomes'' =
              Some (FrameObj (outcomes prices)) \<and>
            value_of (fst (run outcomes_program nb)) ''prices'' =
              Some (PricesObj (Indexed prices)))"
proof -
  have fs: "\<forall>s\<in>set (tl features_program). \<not> allocates s \<and> target s = ''features''"
    by (simp add: features_program_def)
  have os: "\<forall>s\<in>set (tl outcomes_program). \<not> allocates s \<and> target s = ''outcomes''"
    by (simp add: outcomes_program_def)
  have fp: "NewFrameOnIndex ''features'' ''prices'' # tl features_program = features_program"
    by (simp add: features_program_def)
  have op: "NewFrameOnIndex ''outcomes'' ''prices'' # tl outcomes_program = outcomes_program"
    by (simp add: outcomes_program_def)
  from run_fresh_frame [OF assms fs, of "''prices''"]
  have f: "(\<forall>a\<in>dom (heap nb). heap (fst (run features_program nb)) a = heap nb a) \<and>
           (\<forall>x. x \<noteq> ''features'' \<longrightarrow> vars (fst (run features_program nb)) x = vars nb x)"
    by (simp only: fp)
  from f have f1: "\<forall>a\<in>dom (heap nb). heap (fst (run features_program nb)) a = heap nb a"
    by (rule conjunct1)
  from f have f2: "\<forall>x. x \<noteq> ''features'' \<longrightarrow> vars (fst (run features_program nb)) x = vars nb x"
    by (rule conjunct2)
  from run_fresh_frame [OF assms os, of "''prices''"]
  have o: "(\<forall>a\<in>dom (heap nb). heap (fst (run outcomes_program nb)) a = heap nb a) \<and>
           (\<forall>x. x \<noteq> ''outcomes'' \<longrightarrow> vars (fst (run outcomes_program nb)) x = vars nb x)"
    by (simp only: op)
  from o have o1: "\<forall>a\<in>dom (heap nb). heap (fst (run outcomes_program nb)) a = heap nb a"
    by (rule conjunct1)
  from o have o2: "\<forall>x. x \<noteq> ''outcomes'' \<longrightarrow> vars (fst (run outcomes_program nb)) x = vars nb x"
    by (rule conjunct2)
  have both: "snd (run features_program nb) = None \<and>
            value_of (fst (run features_program nb)) ''features'' =
              Some (FrameObj (features prices)) \<and>
            value_of (fst (run features_program nb)) ''prices'' =
              Some (PricesObj (Indexed prices)) \<and>
            snd (run outcomes_program nb) = None \<and>
            value_of (fst (run outcomes_program nb)) ''outcomes'' =
              Some (FrameObj (outcomes prices)) \<and>
            value_of (fst (run outcomes_program nb)) ''prices'' =
              Some (PricesObj (Indexed prices))"
    if p: "value_of nb ''prices'' = Some (PricesObj (Indexed prices))" for prices
    using run_features_program [OF assms p] run_outcomes_program [OF assms p]
    by (simp only: simp_thms)
  show ?thesis
    apply (intro conjI)
        apply (rule f1)
       apply (rule o1)
      apply (rule f2)
     apply (rule o2)
    apply (intro allI impI)
    apply (erule both)
    done
qed

theorem derived_cells_leave_prices_unchanged_witness:
  "dom (heap sample_notebook) = {0, 1} \<and> limit sample_notebook = 2 \<and>
   value_of (fst (run features_program sample_notebook)) ''prices'' =
     Some (PricesObj (Indexed week_prices)) \<and>
   value_of (fst (run features_program sample_notebook)) ''X'' =
     Some (FrameObj \<lparr>columns = [''stale''], rows = []\<rparr>) \<and>
   value_of (fst (run features_program sample_notebook)) ''features'' =
     Some (FrameObj (features week_prices)) \<and>
   value_of (fst (run outcomes_program sample_notebook)) ''outcomes'' =
     Some (FrameObj (outcomes week_prices))"
proof -
  let ?nb = "fst (run features_program sample_notebook)"
  have wf: "\<forall>a\<in>dom (heap sample_notebook). a < limit sample_notebook"
    by (simp add: sample_notebook_def)
  have p: "value_of sample_notebook ''prices'' = Some (PricesObj (Indexed week_prices))"
    by (simp add: sample_notebook_def value_of_def)
  have x: "vars sample_notebook ''X'' = Some 1"
    and h: "heap sample_notebook 1 = Some (FrameObj \<lparr>columns = [''stale''], rows = []\<rparr>)"
    and d: "1 \<in> dom (heap sample_notebook)"
    and n: "''X'' \<noteq> ''features''"
    by (simp_all add: sample_notebook_def)
  note facts = derived_cells_leave_prices_unchanged [OF wf]
  note heap_kept = facts [THEN conjunct1]
  note vars_kept = facts [THEN conjunct2, THEN conjunct2, THEN conjunct1]
  note built = facts [THEN conjunct2, THEN conjunct2, THEN conjunct2, THEN conjunct2,
      rule_format, OF p]
  from vars_kept n x have vx: "vars ?nb ''X'' = Some 1"
    by (simp del: run.simps exec.simps)
  from heap_kept d h have hx: "heap ?nb 1 = Some (FrameObj \<lparr>columns = [''stale''], rows = []\<rparr>)"
    by (simp del: run.simps exec.simps)
  have kept: "value_of ?nb ''X'' = Some (FrameObj \<lparr>columns = [''stale''], rows = []\<rparr>)"
    by (simp only: value_of_def vx hx option.case)
  have shape: "dom (heap sample_notebook) = {0, 1}" "limit sample_notebook = 2"
    by (auto simp: sample_notebook_def)
  from built shape kept show ?thesis
    by (simp only: simp_thms)
qed

end
